theory Spec2Isabelle
  imports Main
begin

section \<open>Strings and paths as the resolver uses them\<close>

text \<open>
  JavaScript strings are modelled as \<^typ>\<open>string\<close>, one \<^typ>\<open>char\<close> per code unit in
  the range 0..255. Within that range \<open>toLowerCase\<close> maps A..Z and the Latin-1 capitals
  (0xC0..0xDE without 0xD7) to the letter 32 positions later and leaves every other
  code unit alone.
\<close>

definition dq :: char where "dq = CHR 0x22"
definition sq :: char where "sq = CHR 0x27"
definition bs :: char where "bs = CHR 0x5C"

definition toLowerCase_char :: "char \<Rightarrow> char" where
  "toLowerCase_char c =
     (let n = (of_char c :: nat)
      in if (65 \<le> n \<and> n \<le> 90) \<or> (192 \<le> n \<and> n \<le> 222 \<and> n \<noteq> 215)
         then char_of (n + 32) else c)"

definition toLowerCase :: "string \<Rightarrow> string" where
  "toLowerCase s = map toLowerCase_char s"

text \<open>
  \<open>path.basename\<close>: trailing separators are skipped, then the last run of
  non-separator characters is returned (the empty string when there is none). On
  \<open>win32\<close> both slashes separate and a leading drive letter with its colon is not part
  of the name; elsewhere only \<open>/\<close> separates.
\<close>

definition basename_seps :: "(char \<Rightarrow> bool) \<Rightarrow> string \<Rightarrow> string" where
  "basename_seps sep p = rev (takeWhile (\<lambda>c. \<not> sep c) (dropWhile sep (rev p)))"

definition posix_sep :: "char \<Rightarrow> bool" where
  "posix_sep c = (c = CHR ''/'')"

definition win32_sep :: "char \<Rightarrow> bool" where
  "win32_sep c = (c = CHR ''/'' \<or> c = bs)"

definition isWindowsDeviceRoot :: "char \<Rightarrow> bool" where
  "isWindowsDeviceRoot c =
     (let n = (of_char c :: nat) in (65 \<le> n \<and> n \<le> 90) \<or> (97 \<le> n \<and> n \<le> 122))"

definition posix_basename :: "string \<Rightarrow> string" where
  "posix_basename p = basename_seps posix_sep p"

definition win32_basename :: "string \<Rightarrow> string" where
  "win32_basename p =
     basename_seps win32_sep
       (if 2 \<le> length p \<and> isWindowsDeviceRoot (p ! 0) \<and> p ! 1 = CHR '':''
        then drop 2 p else p)"

definition path_basename :: "string \<Rightarrow> string \<Rightarrow> string" where
  "path_basename platform p =
     (if platform = ''win32'' then win32_basename p else posix_basename p)"

section \<open>Launch target resolver: getTerminalCommand\<close>

record LaunchSpec =
  command :: string
  args :: "string list"
  shell :: bool

text \<open>
  The source leaves \<open>shell\<close> out of every specification but the two AppleScript ones,
  and its caller reads the field as \<open>terminalCmd.shell || false\<close>: an absent field is
  \<^term>\<open>False\<close> here.
\<close>

definition nodeCommand :: "string \<Rightarrow> string \<Rightarrow> string \<Rightarrow> string" where
  "nodeCommand uiScriptPath sessionId tempDir =
     ''node '' @ [dq] @ uiScriptPath @ [dq] @ '' '' @ [dq] @ sessionId @ [dq]
       @ '' '' @ [dq] @ tempDir @ [dq]"

text \<open>\<open>.replace(/\\/g, '\\\\').replace(/"/g, '\\"')\<close>: backslashes first, then quotes.\<close>

definition escapeForAppleScript :: "string \<Rightarrow> string" where
  "escapeForAppleScript s =
     concat (map (\<lambda>c. if c = dq then [bs, dq] else [c])
       (concat (map (\<lambda>c. if c = bs then [bs, bs] else [c]) s)))"

definition title :: string where
  "title = ''Interactive MCP Input''"

text \<open>
  Two of the argument templates by name: the one with a title flag and a bare \<open>--\<close>
  before the command, and the generic one with the execute flag \<open>-e\<close>.
\<close>

definition kittyArgs :: "string \<Rightarrow> string list" where
  "kittyArgs nc = [''--title'', title, ''--'', ''sh'', ''-c'', nc]"

definition genericArgs :: "string \<Rightarrow> string list" where
  "genericArgs nc = [''-e'', ''sh'', ''-c'', nc]"

definition iTermCommand :: "string \<Rightarrow> string" where
  "iTermCommand nc =
     ''osascript -e '' @ [sq] @ ''tell application '' @ [dq] @ ''iTerm2'' @ [dq]
       @ '' to create window with default profile command '' @ [dq]
       @ escapeForAppleScript nc @ [dq] @ [sq]"

definition terminalAppCommand :: "string \<Rightarrow> string" where
  "terminalAppCommand nc =
     ''osascript -e '' @ [sq] @ ''tell application '' @ [dq] @ ''Terminal'' @ [dq]
       @ '' to activate'' @ [sq] @ '' -e '' @ [sq] @ ''tell application '' @ [dq]
       @ ''Terminal'' @ [dq] @ '' to do script '' @ [dq]
       @ escapeForAppleScript (''exec '' @ nc @ ''; exit 0'') @ [dq] @ [sq]"

text \<open>The Linux candidates, in the order of the source's \<open>terminals\<close> array.\<close>

definition terminals :: "string \<Rightarrow> (string \<times> string list) list" where
  "terminals nc =
     [(''kitty'', [''--title'', title, ''--'', ''sh'', ''-c'', nc]),
      (''alacritty'', [''--title'', title, ''-e'', ''sh'', ''-c'', nc]),
      (''gnome-terminal'', [''--title=Interactive MCP Input'', ''--'', ''sh'', ''-c'', nc]),
      (''konsole'', [''--title'', title, ''-e'', ''sh'', ''-c'', nc]),
      (''xterm'', [''-title'', title, ''-e'', ''sh'', ''-c'', nc])]"

text \<open>
  \<open>execSync(cmd, { stdio: 'ignore' })\<close>. The environment \<open>sh\<close> gives, for a command
  line, its exit status and the text the child prints. \<open>execSync\<close> throws when the
  status is not 0; with \<open>stdio: 'ignore'\<close> none of the child's text reaches the
  parent's streams, so the second component (what becomes visible) is empty.
\<close>

type_synonym shell_env = "string \<Rightarrow> int \<times> string"

datatype exec_result = Returned | Threw

definition execSync_ignore :: "shell_env \<Rightarrow> string \<Rightarrow> exec_result \<times> string" where
  "execSync_ignore sh cmd = (if fst (sh cmd) = 0 then Returned else Threw, [])"

text \<open>
  The \<open>for\<close> loop over the candidates: the \<open>catch\<close> of a throwing probe continues with
  the next one. The result is the specification found and everything the probes made
  visible.
\<close>

fun probe :: "shell_env \<Rightarrow> (string \<times> string list) list \<Rightarrow> LaunchSpec option \<times> string" where
  "probe sh [] = (None, [])"
| "probe sh ((cmd, as) # ts) =
     (case execSync_ignore sh (''which '' @ cmd) of
        (Returned, out) \<Rightarrow> (Some \<lparr>command = cmd, args = as, shell = False\<rparr>, out)
      | (Threw, out) \<Rightarrow> (case probe sh ts of (r, out') \<Rightarrow> (r, out @ out')))"

text \<open>\<open>if (terminalEnv)\<close>: an unset variable and the empty string are both falsy.\<close>

definition truthy :: "string option \<Rightarrow> bool" where
  "truthy v = (case v of None \<Rightarrow> False | Some s \<Rightarrow> s \<noteq> [])"

definition getTerminalCommand ::
  "string \<Rightarrow> string option \<Rightarrow> shell_env \<Rightarrow> string \<Rightarrow> string \<Rightarrow> string \<Rightarrow> LaunchSpec option" where
  "getTerminalCommand platform terminalEnv sh uiScriptPath sessionId tempDir =
     (let nc = nodeCommand uiScriptPath sessionId tempDir in
      if truthy terminalEnv then
        (let te = the terminalEnv;
             terminalName = toLowerCase (path_basename platform te) in
         if terminalName = ''kitty'' then
           Some \<lparr>command = te, args = [''--title'', title, ''--'', ''sh'', ''-c'', nc],
                 shell = False\<rparr>
         else if terminalName = ''alacritty'' then
           Some \<lparr>command = te, args = [''--title'', title, ''-e'', ''sh'', ''-c'', nc],
                 shell = False\<rparr>
         else if terminalName = ''wezterm'' then
           Some \<lparr>command = te, args = [''start'', ''--'', ''sh'', ''-c'', nc], shell = False\<rparr>
         else if (terminalName = ''iterm2'' \<or> terminalName = ''iterm'') \<and> platform = ''darwin''
         then Some \<lparr>command = iTermCommand nc, args = [], shell = True\<rparr>
         else Some \<lparr>command = te, args = [''-e'', ''sh'', ''-c'', nc], shell = False\<rparr>)
      else if platform = ''darwin'' then
        Some \<lparr>command = terminalAppCommand nc, args = [], shell = True\<rparr>
      else if platform = ''linux'' then fst (probe sh (terminals nc))
      else if platform = ''win32'' then
        Some \<lparr>command = ''cmd'', args = [''/c'', ''start'', ''cmd'', ''/k'', nc], shell = False\<rparr>
      else None)"

section \<open>Session coordinator: getCmdWindowInput\<close>

subsection \<open>Promises, effects and the session state\<close>

text \<open>
  A rejected \<open>fs\<close> promise carries either an error object with a \<open>code\<close> field or
  some other thrown value (the source tests \<open>'code' in err\<close>).
\<close>

datatype fs_error = WithCode string | NoCode

datatype 'a outcome = Fulfilled 'a | Rejected fs_error

text \<open>What the coordinator does to the outside world, in the order it does it.\<close>

datatype effect =
    WriteFile string
  | Spawn LaunchSpec
  | ClearInterval
  | CloseWatcher
  | ClearTimeout
  | Unlink string
  | Resolve string

text \<open>
  The variables of the promise executor's closure. \<open>watcher\<close>, \<open>timeoutHandle\<close> and
  \<open>heartbeatInterval\<close> are \<^term>\<open>True\<close> while the JavaScript variable holds a handle
  (is not \<open>null\<close>); \<open>ui\<close> while a child process has been spawned. \<open>reads\<close> and
  \<open>stats\<close> count the \<open>readFile\<close> and \<open>stat\<close> promises in flight, \<open>cleaning\<close> holds
  the responses of the \<open>cleanupAndResolve\<close> calls that are waiting on
  \<open>cleanupResources\<close>, and \<open>settled\<close> is the value of the returned promise: the
  first \<open>resolve\<close> wins, later calls are ignored by the promise.
\<close>

record session =
  tempFilePath :: string
  heartbeatFilePath :: string
  optionsFilePath :: string
  ui :: bool
  watcher :: bool
  timeoutHandle :: bool
  heartbeatInterval :: bool
  heartbeatFileSeen :: bool
  startTime :: int
  reads :: nat
  stats :: nat
  cleaning :: "string list"
  effects :: "effect list"
  settled :: "string option"

text \<open>
  \<open>String.prototype.trim\<close> on code units below 256: TAB, LF, VT, FF, CR, space and
  the no-break space are stripped from both ends.
\<close>

definition isWhiteSpace :: "char \<Rightarrow> bool" where
  "isWhiteSpace c = ((of_char c :: nat) \<in> {9, 10, 11, 12, 13, 32, 160})"

definition trim :: "string \<Rightarrow> string" where
  "trim s = rev (dropWhile isWhiteSpace (rev (dropWhile isWhiteSpace s)))"

subsection \<open>cleanupResources, cleanupAndResolve, resolve\<close>

text \<open>
  \<open>cleanupResources\<close> starts the three \<open>unlink\<close> calls at once, in the order response,
  heartbeat, options; each has its own \<open>.catch(() => {})\<close> and the whole is awaited
  through \<open>Promise.allSettled\<close>, so it cannot reject.
\<close>

definition cleanupResources :: "session \<Rightarrow> session" where
  "cleanupResources s =
     s\<lparr>effects := effects s @
          [Unlink (tempFilePath s), Unlink (heartbeatFilePath s), Unlink (optionsFilePath s)]\<rparr>"

text \<open>
  The synchronous part of \<open>cleanupAndResolve\<close>, up to its \<open>await\<close>: the three handles
  are released when held, the unlinks are started, and the response waits in
  \<open>cleaning\<close> for the unlinks to settle.
\<close>

definition cleanupAndResolve :: "string \<Rightarrow> session \<Rightarrow> session" where
  "cleanupAndResolve response s =
     (let s1 = (if heartbeatInterval s
                then s\<lparr>heartbeatInterval := False, effects := effects s @ [ClearInterval]\<rparr>
                else s);
          s2 = (if watcher s1
                then s1\<lparr>watcher := False, effects := effects s1 @ [CloseWatcher]\<rparr>
                else s1);
          s3 = (if timeoutHandle s2
                then s2\<lparr>timeoutHandle := False, effects := effects s2 @ [ClearTimeout]\<rparr>
                else s2);
          s4 = cleanupResources s3
      in s4\<lparr>cleaning := cleaning s4 @ [response]\<rparr>)"

definition resolve :: "string \<Rightarrow> session \<Rightarrow> session" where
  "resolve response s =
     s\<lparr>effects := effects s @ [Resolve response],
       settled := (case settled s of None \<Rightarrow> Some response | Some v \<Rightarrow> Some v)\<rparr>"

subsection \<open>Setup: the try block and its catch\<close>

text \<open>
  Everything the setup reads from outside: the three channel paths, the resolver's
  inputs, and how each fallible call ends (\<open>writeFile\<close> of the options, a synchronous
  throw of \<open>spawn\<close>, \<open>Date.now()\<close>, \<open>writeFile\<close> of the empty answer, a throw of
  \<open>watch\<close>).
\<close>

record setup_env =
  env_tempFilePath :: string
  env_heartbeatFilePath :: string
  env_optionsFilePath :: string
  env_platform :: string
  env_TERMINAL :: "string option"
  env_sh :: shell_env
  env_uiScriptPath :: string
  env_sessionId :: string
  env_tempDir :: string
  writeOptions :: "unit outcome"
  spawnThrows :: bool
  now :: int
  writeAnswer :: "unit outcome"
  watchThrows :: bool

datatype setup_error = WriteError fs_error | NoTerminalFound | SpawnError | WatchError

definition init :: "setup_env \<Rightarrow> session" where
  "init env =
     \<lparr>tempFilePath = env_tempFilePath env,
      heartbeatFilePath = env_heartbeatFilePath env,
      optionsFilePath = env_optionsFilePath env,
      ui = False, watcher = False, timeoutHandle = False, heartbeatInterval = False,
      heartbeatFileSeen = False, startTime = 0, reads = 0, stats = 0,
      cleaning = [], effects = [], settled = None\<rparr>"

text \<open>
  The body of \<open>try\<close>: the session when the block ends or throws, and the thrown
  value. The \<open>exit\<close> and \<open>error\<close> handlers are registered right after the spawn, but
  while \<open>watcher\<close> and \<open>timeoutHandle\<close> are both \<open>null\<close> they do nothing, so the
  two awaits of the block (the answer file, the 500 ms wait) are not interleaving
  points of the model.
\<close>

definition try_setup :: "setup_env \<Rightarrow> session \<times> setup_error option" where
  "try_setup env =
     (let s1 = (init env)\<lparr>effects := [WriteFile (env_optionsFilePath env)]\<rparr> in
      case writeOptions env of
        Rejected e \<Rightarrow> (s1, Some (WriteError e))
      | Fulfilled _ \<Rightarrow>
         (case getTerminalCommand (env_platform env) (env_TERMINAL env) (env_sh env)
                 (env_uiScriptPath env) (env_sessionId env) (env_tempDir env) of
            None \<Rightarrow> (s1, Some NoTerminalFound)
          | Some terminalCmd \<Rightarrow>
             if spawnThrows env then (s1, Some SpawnError)
             else
               (let s2 = s1\<lparr>ui := True, startTime := now env,
                             effects := effects s1 @
                               [Spawn terminalCmd, WriteFile (env_tempFilePath env)]\<rparr> in
                case writeAnswer env of
                  Rejected e \<Rightarrow> (s2, Some (WriteError e))
                | Fulfilled _ \<Rightarrow>
                   if watchThrows env then (s2, Some WatchError)
                   else (s2\<lparr>watcher := True, heartbeatInterval := True,
                             timeoutHandle := True\<rparr>, None))))"

text \<open>
  The promise executor up to the point where only callbacks remain: on a throw the
  \<open>catch\<close> starts \<open>cleanupResources\<close> and will \<open>resolve('')\<close> once it settles.
\<close>

definition getCmdWindowInput :: "setup_env \<Rightarrow> session" where
  "getCmdWindowInput env =
     (case try_setup env of
        (s, None) \<Rightarrow> s
      | (s, Some setupError) \<Rightarrow>
          (let s' = cleanupResources s in s'\<lparr>cleaning := cleaning s' @ ['''']\<rparr>))"

subsection \<open>Callbacks\<close>

text \<open>
  One event per callback or promise continuation that the event loop can run:
  the \<open>fs.watch\<close> listener with its event type, the end of a \<open>readFile\<close>, a tick of
  the heartbeat interval, the end of a \<open>stat\<close> together with the \<open>Date.now()\<close> its
  continuation reads, the timeout, the child's \<open>exit\<close> (with its code, \<open>null\<close> after
  a signal) and \<open>error\<close>, and the end of the \<open>cleanupResources\<close> of the i-th waiting
  \<open>cleanupAndResolve\<close> with the outcomes of its three unlinks.
\<close>

datatype event =
    WatchEvent string
  | ReadSettled "string outcome"
  | IntervalTick
  | StatSettled "int outcome" int
  | TimeoutFired
  | ProcExit "int option"
  | ProcError
  | CleanupSettled nat "unit outcome list"

fun fire :: "event \<Rightarrow> session \<Rightarrow> session" where
  "fire (WatchEvent eventType) s =
     (if eventType = ''change'' then s\<lparr>reads := Suc (reads s)\<rparr> else s)"
| "fire (ReadSettled r) s =
     (let s' = s\<lparr>reads := reads s - 1\<rparr> in
      case r of
        Fulfilled data \<Rightarrow> (if data \<noteq> [] then cleanupAndResolve (trim data) s' else s')
      | Rejected readError \<Rightarrow> cleanupAndResolve '''' s')"
| "fire IntervalTick s = s\<lparr>stats := Suc (stats s)\<rparr>"
| "fire (StatSettled r t) s =
     (let s' = s\<lparr>stats := stats s - 1\<rparr> in
      case r of
        Fulfilled mtime \<Rightarrow>
          (if t - mtime > 3000 then cleanupAndResolve '''' s'
           else s'\<lparr>heartbeatFileSeen := True\<rparr>)
      | Rejected (WithCode c) \<Rightarrow>
          (if c = ''ENOENT'' then
             (if heartbeatFileSeen s' then cleanupAndResolve '''' s'
              else if t - startTime s' > 7000 then cleanupAndResolve '''' s'
              else s')
           else cleanupAndResolve '''' s')
      | Rejected NoCode \<Rightarrow> cleanupAndResolve '''' s')"
| "fire TimeoutFired s = cleanupAndResolve '''' s"
| "fire (ProcExit code) s =
     (if code \<noteq> Some 0 \<and> (watcher s \<or> timeoutHandle s) then cleanupAndResolve '''' s else s)"
| "fire ProcError s =
     (if watcher s \<or> timeoutHandle s then cleanupAndResolve '''' s else s)"
| "fire (CleanupSettled i outs) s =
     resolve (cleaning s ! i) (s\<lparr>cleaning := take i (cleaning s) @ drop (Suc i) (cleaning s)\<rparr>)"

text \<open>
  Which events the runtime can deliver: a closed watcher, a cleared interval and a
  cleared or fired timeout stay silent, a continuation needs its promise in flight,
  and the child's events need a child.
\<close>

fun enabled :: "event \<Rightarrow> session \<Rightarrow> bool" where
  "enabled (WatchEvent eventType) s = watcher s"
| "enabled (ReadSettled r) s = (0 < reads s)"
| "enabled IntervalTick s = heartbeatInterval s"
| "enabled (StatSettled r t) s = (0 < stats s)"
| "enabled TimeoutFired s = timeoutHandle s"
| "enabled (ProcExit code) s = ui s"
| "enabled ProcError s = ui s"
| "enabled (CleanupSettled i outs) s = (i < length (cleaning s) \<and> length outs = 3)"

text \<open>A run of the event loop: \<^term>\<open>None\<close> when an event cannot happen where it stands.\<close>

fun exec :: "event list \<Rightarrow> session \<Rightarrow> session option" where
  "exec [] s = Some s"
| "exec (e # es) s = (if enabled e s then exec es (fire e s) else None)"

subsection \<open>Timers\<close>

text \<open>
  Times are milliseconds, as \<open>Date.now()\<close> counts them; \<open>timeoutSeconds\<close> is a whole
  number of seconds. Node's timers replace a delay below 1 or above 2147483647 by 1.
  A timer is taken to fire exactly when it is due, and a file operation to take no
  time apart from the answer file's initialisation, whose duration \<open>w\<close> is kept:
  the watcher, the interval and the timeout are set up \<open>w\<close> plus the 500 ms wait
  after \<open>startTime\<close> was read.
\<close>

definition setTimeout_delay :: "int \<Rightarrow> int" where
  "setTimeout_delay ms = (if ms < 1 \<or> 2147483647 < ms then 1 else ms)"

definition timeoutDelay :: "int \<Rightarrow> int" where
  "timeoutDelay timeoutSeconds = setTimeout_delay (timeoutSeconds * 1000 + 5000)"

definition armedAt :: "session \<Rightarrow> int \<Rightarrow> int" where
  "armedAt s w = startTime s + w + setTimeout_delay 500"

text \<open>
  The two timers of a session in which nothing else happens (no change of the answer
  file, no event of the child): \<open>hb t\<close> is what \<open>stat\<close> of the heartbeat file gives at
  time \<open>t\<close>, \<open>tick\<close> the time of the next poll and \<open>deadline\<close> that of the timeout.
  Polls run every 1500 ms until one of them, or the timeout, calls
  \<open>cleanupAndResolve\<close>; the result is the time of that call and the session after it.
  A poll due at the very time of the deadline is run before the timeout (the interval
  was created first).
\<close>

function run_timers :: "(int \<Rightarrow> int outcome) \<Rightarrow> int \<Rightarrow> int \<Rightarrow> session \<Rightarrow> int \<times> session" where
  "run_timers hb tick deadline s =
     (if deadline < tick then (deadline, fire TimeoutFired s)
      else
        (let s' = fire (StatSettled (hb tick) tick) (fire IntervalTick s) in
         if cleaning s' \<noteq> [] then (tick, s')
         else run_timers hb (tick + setTimeout_delay 1500) deadline s'))"
  by pat_completeness auto
termination
  by (relation "measure (\<lambda>(hb, tick, deadline, s). nat (deadline - tick + 1))")
     (auto simp: setTimeout_delay_def)

declare run_timers.simps [simp del]

text \<open>
  Such a session from the moment its triggers are armed to the settling of the
  promise: the time at which a trigger resolved it, and the final session.
\<close>

definition quiet_session :: "(int \<Rightarrow> int outcome) \<Rightarrow> int \<Rightarrow> int \<Rightarrow> session \<Rightarrow> int \<times> session" where
  "quiet_session hb w timeoutSeconds s =
     (let a = armedAt s w in
      case run_timers hb (a + setTimeout_delay 1500) (a + timeoutDelay timeoutSeconds) s of
        (t, s') \<Rightarrow> (t, fire (CleanupSettled 0 [Fulfilled (), Fulfilled (), Fulfilled ()]) s'))"

subsection \<open>Concrete environments\<close>

definition no_terminals :: shell_env where
  "no_terminals cmd = (1, [])"

definition only_konsole :: shell_env where
  "only_konsole cmd = (if cmd = ''which konsole'' then (0, ''/usr/bin/konsole'') else (1, []))"

definition example_env :: setup_env where
  "example_env =
     \<lparr>env_tempFilePath = ''/tmp/cmd-ui-response-0a1b2c3d4e5f6071.txt'',
      env_heartbeatFilePath = ''/tmp/cmd-ui-heartbeat-0a1b2c3d4e5f6071.txt'',
      env_optionsFilePath = ''/tmp/cmd-ui-options-0a1b2c3d4e5f6071.json'',
      env_platform = ''linux'',
      env_TERMINAL = None,
      env_sh = only_konsole,
      env_uiScriptPath = ''/app/dist/ui.js'',
      env_sessionId = ''0a1b2c3d4e5f6071'',
      env_tempDir = ''/tmp'',
      writeOptions = Fulfilled (),
      spawnThrows = False,
      now = 0,
      writeAnswer = Fulfilled (),
      watchThrows = False\<rparr>"

definition never_created :: "int \<Rightarrow> int outcome" where
  "never_created t = Rejected (WithCode ''ENOENT'')"


text \<open>A candidate is available when \<open>which\<close> exits with status 0 for it.\<close>

definition available :: "shell_env \<Rightarrow> string \<times> string list \<Rightarrow> bool" where
  "available sh t = (fst (sh (''which '' @ fst t)) = 0)"

section \<open>Notions used to state the properties\<close>

text \<open>The effects that precede the first call of \<open>resolve\<close>.\<close>

fun isResolve :: "effect \<Rightarrow> bool" where
  "isResolve (Resolve r) = True"
| "isResolve e = False"

definition before_return :: "effect list \<Rightarrow> effect list" where
  "before_return es = takeWhile (\<lambda>e. \<not> isResolve e) es"

text \<open>
  The unlinks that \<open>cleanupResources\<close> starts and the handles that \<open>cleanupAndResolve\<close>
  releases, as effects.
\<close>

definition unlinks :: "session \<Rightarrow> effect list" where
  "unlinks s = [Unlink (tempFilePath s), Unlink (heartbeatFilePath s), Unlink (optionsFilePath s)]"

definition disarm :: "session \<Rightarrow> effect list" where
  "disarm s = (if heartbeatInterval s then [ClearInterval] else [])
     @ (if watcher s then [CloseWatcher] else [])
     @ (if timeoutHandle s then [ClearTimeout] else [])"

text \<open>The trimmed texts of the non-empty reads of the answer file in a run.\<close>

fun answers :: "event list \<Rightarrow> string list" where
  "answers [] = []"
| "answers (ReadSettled (Fulfilled d) # es) = (if d \<noteq> [] then trim d # answers es else answers es)"
| "answers (e # es) = answers es"


text \<open>
  The invariant behind the cleanup: the promise is settled exactly when \<open>resolve\<close>
  was called, and as soon as a cleanup is under way or the promise is settled, the
  three unlinks were started before the first \<open>resolve\<close>.
\<close>

definition cleanup_inv :: "session \<Rightarrow> bool" where
  "cleanup_inv s \<longleftrightarrow>
     ((settled s \<noteq> None) = (\<exists>e\<in>set (effects s). isResolve e)) \<and>
     (cleaning s \<noteq> [] \<or> settled s \<noteq> None \<longrightarrow>
        set (unlinks s) \<subseteq> set (before_return (effects s)))"

text \<open>
  What one event can do to \<open>effects\<close>, \<open>cleaning\<close> and \<open>settled\<close>: nothing (then the
  timeout handle is untouched as well), start a cleanup for a response, or finish
  the i-th cleanup under way.
\<close>

datatype shape = Same | Started string | Finished nat

definition shaped :: "shape \<Rightarrow> session \<Rightarrow> session \<Rightarrow> bool" where
  "shaped k s s' =
     (case k of
        Same \<Rightarrow> effects s' = effects s \<and> cleaning s' = cleaning s \<and> settled s' = settled s
                \<and> timeoutHandle s' = timeoutHandle s
      | Started r \<Rightarrow>
          effects s' = effects s @ disarm s @ unlinks s \<and> cleaning s' = cleaning s @ [r]
          \<and> settled s' = settled s
      | Finished i \<Rightarrow>
          i < length (cleaning s) \<and> effects s' = effects s @ [Resolve (cleaning s ! i)]
          \<and> cleaning s' = take i (cleaning s) @ drop (Suc i) (cleaning s)
          \<and> settled s' = (case settled s of None \<Rightarrow> Some (cleaning s ! i) | Some v \<Rightarrow> Some v))"

text \<open>Outcomes of the three unlinks: all done, or all three files missing.\<close>

definition ok3 :: "unit outcome list" where
  "ok3 = [Fulfilled (), Fulfilled (), Fulfilled ()]"

definition missing3 :: "unit outcome list" where
  "missing3 = [Rejected (WithCode ''ENOENT''), Rejected (WithCode ''ENOENT''),
               Rejected (WithCode ''ENOENT'')]"

text \<open>
  The events that settle the promise from a state where it is not settled: the first
  cleanup under way ends, or else the timeout fires and its cleanup ends.
\<close>

definition finish :: "session \<Rightarrow> event list" where
  "finish s = (if cleaning s \<noteq> [] then [] else [TimeoutFired]) @ [CleanupSettled 0 ok3]"

text \<open>Setups that fail: no terminal on the PATH, and a \<open>spawn\<close> that throws.\<close>

definition no_terminal_env :: setup_env where
  "no_terminal_env = example_env\<lparr>env_sh := no_terminals\<rparr>"

definition spawn_fails_env :: setup_env where
  "spawn_fails_env = example_env\<lparr>spawnThrows := True\<rparr>"

text \<open>
  A read of the answer file is in flight when the timeout fires; the read then ends
  with a text, and the two cleanups end one after the other.
\<close>

definition race_trace :: "event list" where
  "race_trace =
     [WatchEvent ''change'', TimeoutFired, ReadSettled (Fulfilled ''yes''),
      CleanupSettled 0 ok3, CleanupSettled 0 ok3]"

text \<open>Two contents of the answer file: an answer with whitespace around it, and whitespace alone.\<close>

definition yes_answer :: string where
  "yes_answer = ''  yes '' @ [CHR 0x0A]"

definition blank_answer :: string where
  "blank_answer = '' '' @ [CHR 0x0A]"

text \<open>
  The failures of an armed session, by the event that reports them: a failed read of
  the answer file; a heartbeat file that is stale, that is missing after it was seen
  or after the grace period, or whose \<open>stat\<close> fails otherwise; the timeout; an exit
  of the child with a code other than 0, or an error of the child, while the watcher
  or the timeout is still held.
\<close>

fun is_failure :: "session \<Rightarrow> event \<Rightarrow> bool" where
  "is_failure s (ReadSettled (Rejected e)) = True"
| "is_failure s (StatSettled (Fulfilled mtime) t) = (3000 < t - mtime)"
| "is_failure s (StatSettled (Rejected (WithCode c)) t) =
     (if c = ''ENOENT'' then heartbeatFileSeen s \<or> 7000 < t - startTime s else True)"
| "is_failure s (StatSettled (Rejected NoCode) t) = True"
| "is_failure s TimeoutFired = True"
| "is_failure s (ProcExit code) = (code \<noteq> Some 0 \<and> (watcher s \<or> timeoutHandle s))"
| "is_failure s ProcError = (watcher s \<or> timeoutHandle s)"
| "is_failure s e = False"

text \<open>
  The events that resolve the session: a non-empty read of the answer file, and the
  failures.
\<close>

fun is_answer :: "event \<Rightarrow> bool" where
  "is_answer (ReadSettled (Fulfilled d)) = (d \<noteq> [])"
| "is_answer e = False"

definition resolving :: "session \<Rightarrow> event \<Rightarrow> bool" where
  "resolving s e = (is_answer e \<or> is_failure s e)"

text \<open>
  The events of \<open>n\<close> polls of the heartbeat file from time \<open>tick\<close> on, each a tick of
  the interval and the end of its \<open>stat\<close>.
\<close>

fun polls :: "(int \<Rightarrow> int outcome) \<Rightarrow> int \<Rightarrow> nat \<Rightarrow> event list" where
  "polls hb tick 0 = []"
| "polls hb tick (Suc n) =
     IntervalTick # StatSettled (hb tick) tick # polls hb (tick + setTimeout_delay 1500) n"

section \<open>Properties of the resolver\<close>

lemma path_basename_Nil: "path_basename platform [] = []"
  by (simp add: path_basename_def win32_basename_def posix_basename_def basename_seps_def)

lemma basename_seps_qualified:
  assumes "name \<noteq> []" and "\<forall>c\<in>set name. \<not> sep c" and "sep (CHR ''/'')"
  shows "basename_seps sep (dir @ ''/'' @ name) = name"
proof -
  from assms(1) obtain c cs where rn: "rev name = c # cs"
    by (cases "rev name") auto
  have nosep: "\<forall>x\<in>set (rev name). \<not> sep x"
    using assms(2) by simp
  then have "\<not> sep c"
    using rn by simp
  then have d: "dropWhile sep (rev (dir @ ''/'' @ name)) = rev name @ CHR ''/'' # rev dir"
    using rn by simp
  have "takeWhile (\<lambda>c. \<not> sep c) (rev name @ CHR ''/'' # rev dir) = rev name"
    using nosep assms(3) by (subst takeWhile_append2) auto
  with d show ?thesis
    by (simp add: basename_seps_def)
qed

lemma toLowerCase_char_not_sep:
  "toLowerCase_char c \<in> {CHR ''k'', CHR ''i'', CHR ''t'', CHR ''y''} \<Longrightarrow> c \<noteq> CHR ''/'' \<and> c \<noteq> bs"
  by (auto simp: toLowerCase_char_def bs_def)

lemma kitty_name_chars:
  assumes "toLowerCase name = ''kitty''"
  shows "name \<noteq> [] \<and> (\<forall>c\<in>set name. c \<noteq> CHR ''/'' \<and> c \<noteq> bs)"
proof -
  have "\<forall>c\<in>set name. toLowerCase_char c \<in> set ''kitty''"
    using assms unfolding toLowerCase_def by (metis imageI list.set_map)
  then have "\<forall>c\<in>set name. c \<noteq> CHR ''/'' \<and> c \<noteq> bs"
    using toLowerCase_char_not_sep by auto
  moreover have "name \<noteq> []" using assms by (auto simp: toLowerCase_def)
  ultimately show ?thesis by simp
qed

lemma path_basename_qualified:
  assumes "toLowerCase name = ''kitty''"
  shows "path_basename platform (dir @ ''/'' @ name) = name"
proof (cases "platform = ''win32''")
  case False
  then show ?thesis
    using kitty_name_chars [OF assms] basename_seps_qualified [of name posix_sep dir]
    by (simp add: path_basename_def posix_basename_def posix_sep_def)
next
  case True
  have q: "\<And>d. basename_seps win32_sep (d @ ''/'' @ name) = name"
    using kitty_name_chars [OF assms] basename_seps_qualified [of name win32_sep]
    by (simp add: win32_sep_def)
  show ?thesis
  proof (cases dir)
    case Nil
    then show ?thesis using True q [of "[]"]
      by (simp add: path_basename_def win32_basename_def isWindowsDeviceRoot_def)
  next
    case (Cons x xs)
    show ?thesis
    proof (cases xs)
      case Nil
      then show ?thesis using True Cons q [of "[x]"]
        by (simp add: path_basename_def win32_basename_def)
    next
      case (Cons y ys)
      then show ?thesis using True \<open>dir = x # xs\<close> q [of "x # y # ys"] q [of ys]
        by (simp add: path_basename_def win32_basename_def)
    qed
  qed
qed


lemma truthy_Some: "truthy (Some te) = (te \<noteq> [])"
  by (simp add: truthy_def)

lemma kitty_by_basename:
  assumes "toLowerCase (path_basename platform te) = ''kitty''"
  shows "getTerminalCommand platform (Some te) sh uiScriptPath sessionId tempDir =
           Some \<lparr>command = te, args = kittyArgs (nodeCommand uiScriptPath sessionId tempDir),
                 shell = False\<rparr>"
proof -
  have "te \<noteq> []"
    using assms path_basename_Nil [of platform] by (auto simp: toLowerCase_def)
  then show ?thesis
    using assms by (simp add: getTerminalCommand_def truthy_Some kittyArgs_def Let_def)
qed

text \<open>
  C8: a configured executable whose base name is \<open>kitty\<close> up to case gets the template
  \<open>--title\<close>, title, \<open>--\<close>, then the command, with the executable as configured;
  this holds whatever directory qualifies the name, and that template is not the generic
  \<open>-e\<close> one.
\<close>

theorem kitty_title_separator_template:
  "(toLowerCase (path_basename platform te) = ''kitty'' \<longrightarrow>
      getTerminalCommand platform (Some te) sh uiScriptPath sessionId tempDir =
        Some \<lparr>command = te, args = kittyArgs (nodeCommand uiScriptPath sessionId tempDir),
              shell = False\<rparr>)
   \<and> (toLowerCase name = ''kitty'' \<longrightarrow>
      getTerminalCommand platform (Some (dir @ ''/'' @ name)) sh uiScriptPath sessionId tempDir =
        Some \<lparr>command = dir @ ''/'' @ name,
              args = kittyArgs (nodeCommand uiScriptPath sessionId tempDir), shell = False\<rparr>)
   \<and> kittyArgs nc = [''--title'', ''Interactive MCP Input'', ''--'', ''sh'', ''-c'', nc]
   \<and> kittyArgs nc \<noteq> genericArgs nc"
proof -
  have "toLowerCase name = ''kitty'' \<Longrightarrow>
      toLowerCase (path_basename platform (dir @ ''/'' @ name)) = ''kitty''"
    using path_basename_qualified [of name platform dir] by simp
  then show ?thesis
    using kitty_by_basename by (auto simp: kittyArgs_def genericArgs_def title_def)
qed

theorem kitty_title_separator_template_witness:
  "toLowerCase (path_basename ''linux'' ''/usr/local/bin/KiTTy'') = ''kitty''
   \<and> toLowerCase ''KiTTy'' = ''kitty''
   \<and> getTerminalCommand ''linux'' (Some ''/usr/local/bin/KiTTy'') no_terminals
        ''/app/dist/ui.js'' ''0a1b2c3d4e5f6071'' ''/tmp'' =
      Some \<lparr>command = ''/usr/local/bin/KiTTy'',
            args = [''--title'', ''Interactive MCP Input'', ''--'', ''sh'', ''-c'',
                    nodeCommand ''/app/dist/ui.js'' ''0a1b2c3d4e5f6071'' ''/tmp''],
            shell = False\<rparr>"
proof -
  have a: "toLowerCase ''KiTTy'' = ''kitty''"
    by code_simp
  have b: "toLowerCase (path_basename ''linux'' ''/usr/local/bin/KiTTy'') = ''kitty''"
    by code_simp
  show ?thesis
    using a b
      kitty_title_separator_template [of "''linux''" "''/usr/local/bin/KiTTy''" no_terminals
        "''/app/dist/ui.js''" "''0a1b2c3d4e5f6071''" "''/tmp''" "''KiTTy''" "''/usr/local/bin''"
        "nodeCommand ''/app/dist/ui.js'' ''0a1b2c3d4e5f6071'' ''/tmp''"]
    by simp
qed

text \<open>
  On Linux a configured \<open>/usr/bin/iterm2\<close> does not make the resolver return nothing.
\<close>

theorem iterm_off_darwin_counterexample:
  "toLowerCase (path_basename ''linux'' ''/usr/bin/iterm2'') = ''iterm2''
   \<and> ''linux'' \<noteq> ''darwin''
   \<and> getTerminalCommand ''linux'' (Some ''/usr/bin/iterm2'') no_terminals
        ''/app/dist/ui.js'' ''0a1b2c3d4e5f6071'' ''/tmp'' \<noteq> None"
proof -
  have "toLowerCase (path_basename ''linux'' ''/usr/bin/iterm2'') = ''iterm2''"
    by code_simp
  then show ?thesis
    by (simp add: getTerminalCommand_def truthy_Some Let_def)
qed

text \<open>
  C7, as the code has it: off macOS a configured executable whose base name is
  \<open>iterm2\<close> or \<open>iterm\<close> falls through to the generic template, the executable with
  \<open>-e sh -c\<close> and the command.
\<close>

theorem iterm_off_darwin_generic:
  assumes "platform \<noteq> ''darwin''"
    and "toLowerCase (path_basename platform te) = ''iterm2''
         \<or> toLowerCase (path_basename platform te) = ''iterm''"
  shows "getTerminalCommand platform (Some te) sh uiScriptPath sessionId tempDir =
           Some \<lparr>command = te, args = genericArgs (nodeCommand uiScriptPath sessionId tempDir),
                 shell = False\<rparr>"
proof -
  have "te \<noteq> []"
    using assms(2) path_basename_Nil [of platform] by (auto simp: toLowerCase_def)
  then show ?thesis
    using assms by (auto simp: getTerminalCommand_def truthy_Some genericArgs_def Let_def)
qed

theorem iterm_off_darwin_generic_witness:
  "''linux'' \<noteq> ''darwin''
   \<and> toLowerCase (path_basename ''linux'' ''/usr/bin/iterm2'') = ''iterm2''
   \<and> getTerminalCommand ''linux'' (Some ''/usr/bin/iterm2'') no_terminals
        ''/app/dist/ui.js'' ''0a1b2c3d4e5f6071'' ''/tmp'' =
      Some \<lparr>command = ''/usr/bin/iterm2'',
            args = [''-e'', ''sh'', ''-c'',
                    nodeCommand ''/app/dist/ui.js'' ''0a1b2c3d4e5f6071'' ''/tmp''],
            shell = False\<rparr>"
proof -
  have a: "''linux'' \<noteq> ''darwin''"
    by simp
  have b: "toLowerCase (path_basename ''linux'' ''/usr/bin/iterm2'') = ''iterm2''"
    by code_simp
  show ?thesis
    using a b iterm_off_darwin_generic [OF a disjI1 [OF b], of no_terminals
        "''/app/dist/ui.js''" "''0a1b2c3d4e5f6071''" "''/tmp''"]
    by (simp add: genericArgs_def)
qed

lemma probe_first_available:
  "fst (probe sh ts) =
     (case filter (available sh) ts of
        [] \<Rightarrow> None
      | t # _ \<Rightarrow> Some \<lparr>command = fst t, args = snd t, shell = False\<rparr>)"
  by (induction ts) (auto simp: execSync_ignore_def available_def split: prod.splits)

lemma probe_silent: "snd (probe sh ts) = []"
  by (induction ts) (auto simp: execSync_ignore_def split: prod.splits)

text \<open>
  C9: on Linux without a configured executable the resolver returns the first candidate
  of kitty, alacritty, gnome-terminal, konsole, xterm (in this order) that \<open>which\<close>
  finds, with that candidate's arguments, and nothing when none is found; a failing
  probe is skipped, and the probes make nothing visible.
\<close>

theorem linux_probe_order:
  assumes "\<not> truthy terminalEnv"
  shows "getTerminalCommand ''linux'' terminalEnv sh uiScriptPath sessionId tempDir =
           (case filter (available sh) (terminals (nodeCommand uiScriptPath sessionId tempDir)) of
              [] \<Rightarrow> None
            | t # _ \<Rightarrow> Some \<lparr>command = fst t, args = snd t, shell = False\<rparr>)
         \<and> map fst (terminals nc) =
             [''kitty'', ''alacritty'', ''gnome-terminal'', ''konsole'', ''xterm'']
         \<and> snd (probe sh (terminals nc)) = []"
proof -
  have "getTerminalCommand ''linux'' terminalEnv sh uiScriptPath sessionId tempDir =
          fst (probe sh (terminals (nodeCommand uiScriptPath sessionId tempDir)))"
    using assms by (simp add: getTerminalCommand_def Let_def)
  moreover have "map fst (terminals nc) =
      [''kitty'', ''alacritty'', ''gnome-terminal'', ''konsole'', ''xterm'']"
    by (simp add: terminals_def)
  ultimately show ?thesis
    by (simp only: probe_first_available probe_silent simp_thms)
qed

theorem linux_probe_order_witness:
  "\<not> truthy None
   \<and> getTerminalCommand ''linux'' None only_konsole ''/app/dist/ui.js'' ''0a1b2c3d4e5f6071'' ''/tmp'' =
       Some \<lparr>command = ''konsole'',
             args = [''--title'', ''Interactive MCP Input'', ''-e'', ''sh'', ''-c'',
                     nodeCommand ''/app/dist/ui.js'' ''0a1b2c3d4e5f6071'' ''/tmp''],
             shell = False\<rparr>
   \<and> getTerminalCommand ''linux'' None no_terminals ''/app/dist/ui.js'' ''0a1b2c3d4e5f6071'' ''/tmp'' =
       None"
proof -
  have a: "\<not> truthy None"
    by (simp add: truthy_def)
  show ?thesis
    using a
      linux_probe_order [OF a, of only_konsole "''/app/dist/ui.js''" "''0a1b2c3d4e5f6071''" "''/tmp''" "[]"]
      linux_probe_order [OF a, of no_terminals "''/app/dist/ui.js''" "''0a1b2c3d4e5f6071''" "''/tmp''" "[]"]
    by (simp add: terminals_def available_def only_konsole_def no_terminals_def title_def)
qed

section \<open>Invariants of the session\<close>

lemma cleanupAndResolve_eq:
  "cleanupAndResolve r s =
     s\<lparr>heartbeatInterval := False, watcher := False, timeoutHandle := False,
       effects := effects s @ disarm s @ unlinks s, cleaning := cleaning s @ [r]\<rparr>"
  by (simp add: cleanupAndResolve_def cleanupResources_def disarm_def unlinks_def Let_def)

lemma before_return_append:
  "before_return (xs @ ys) =
     (if \<exists>e\<in>set xs. isResolve e then before_return xs else xs @ before_return ys)"
  by (auto simp: before_return_def takeWhile_append)

lemma disarm_counters [simp]:
  "disarm (s\<lparr>reads := n\<rparr>) = disarm s" "disarm (s\<lparr>stats := n\<rparr>) = disarm s"
  "unlinks (s\<lparr>reads := n\<rparr>) = unlinks s" "unlinks (s\<lparr>stats := n\<rparr>) = unlinks s"
  by (simp_all add: disarm_def unlinks_def)

lemma fire_shape:
  assumes "enabled e s"
  shows "\<exists>k. shaped k s (fire e s) \<and> (\<forall>r. k = Started r \<longrightarrow> r \<in> set ([] # answers [e]))"
proof (cases e)
  case (WatchEvent ty)
  then have "shaped Same s (fire e s)" by (simp add: shaped_def)
  then show ?thesis by (metis list.set_intros(1) shape.distinct(1) shape.inject(1))
next
  case (ReadSettled r)
  show ?thesis
  proof (cases r)
    case (Fulfilled d)
    show ?thesis
    proof (cases "d = []")
      case True
      then have "shaped Same s (fire e s)"
        using ReadSettled Fulfilled by (simp add: shaped_def)
      then show ?thesis by blast
    next
      case False
      then have "shaped (Started (trim d)) s (fire e s)" and "answers [e] = [trim d]"
        using ReadSettled Fulfilled by (simp_all add: shaped_def cleanupAndResolve_eq)
      then show ?thesis by (intro exI [of _ "Started (trim d)"]) simp
    qed
  next
    case (Rejected x)
    then have "shaped (Started []) s (fire e s)"
      using ReadSettled by (simp add: shaped_def cleanupAndResolve_eq)
    then show ?thesis by (intro exI [of _ "Started []"]) simp
  qed
next
  case IntervalTick
  then have "shaped Same s (fire e s)" by (simp add: shaped_def)
  then show ?thesis by (metis list.set_intros(1) shape.distinct(1) shape.inject(1))
next
  case (StatSettled r t)
  have "shaped Same s (fire e s) \<or> shaped (Started []) s (fire e s)"
    using StatSettled
    by (auto simp: shaped_def cleanupAndResolve_eq Let_def split: outcome.splits fs_error.splits)
  then show ?thesis by (metis list.set_intros(1) shape.distinct(1) shape.inject(1))
next
  case TimeoutFired
  then have "shaped (Started []) s (fire e s)"
    by (simp add: shaped_def cleanupAndResolve_eq)
  then show ?thesis by (intro exI [of _ "Started []"]) simp
next
  case (ProcExit code)
  have "shaped Same s (fire e s) \<or> shaped (Started []) s (fire e s)"
    using ProcExit by (auto simp: shaped_def cleanupAndResolve_eq)
  then show ?thesis by (metis list.set_intros(1) shape.distinct(1) shape.inject(1))
next
  case ProcError
  have "shaped Same s (fire e s) \<or> shaped (Started []) s (fire e s)"
    using ProcError by (auto simp: shaped_def cleanupAndResolve_eq)
  then show ?thesis by (metis list.set_intros(1) shape.distinct(1) shape.inject(1))
next
  case (CleanupSettled i outs)
  then have "shaped (Finished i) s (fire e s)"
    using assms by (simp add: shaped_def resolve_def)
  then show ?thesis by blast
qed

lemma fire_paths:
  "tempFilePath (fire e s) = tempFilePath s"
  "heartbeatFilePath (fire e s) = heartbeatFilePath s"
  "optionsFilePath (fire e s) = optionsFilePath s"
  by (cases e; auto simp: cleanupAndResolve_eq resolve_def Let_def
        split: outcome.splits fs_error.splits)+

lemma unlinks_fire: "unlinks (fire e s) = unlinks s"
  by (simp add: unlinks_def fire_paths)

lemma no_resolve_disarm_unlinks: "\<not> (\<exists>e\<in>set (disarm s @ unlinks s). isResolve e)"
  by (auto simp: disarm_def unlinks_def)

lemma before_return_snoc_Resolve: "before_return (xs @ [Resolve r]) = before_return xs"
  by (induction xs) (auto simp: before_return_def)

lemma before_return_all: "\<not> (\<exists>e\<in>set xs. isResolve e) \<Longrightarrow> before_return xs = xs"
  by (simp add: before_return_def)

lemma shaped_cleanup_inv:
  assumes "shaped k s s'" and "unlinks s' = unlinks s" and "cleanup_inv s"
  shows "cleanup_inv s'"
proof (cases k)
  case Same
  then show ?thesis
    using assms by (simp add: shaped_def cleanup_inv_def)
next
  case (Started r)
  then have e: "effects s' = effects s @ disarm s @ unlinks s"
    and c: "cleaning s' = cleaning s @ [r]" and t: "settled s' = settled s"
    using assms(1) by (simp_all add: shaped_def)
  show ?thesis
  proof (cases "settled s = None")
    case True
    then have nr: "\<not> (\<exists>e\<in>set (effects s). isResolve e)"
      using assms(3) by (simp add: cleanup_inv_def)
    then have "\<not> (\<exists>x\<in>set (effects s'). isResolve x)"
      using e no_resolve_disarm_unlinks [of s] by auto
    then have "before_return (effects s') = effects s'"
      by (rule before_return_all)
    then show ?thesis
      using e t True nr assms(2) no_resolve_disarm_unlinks [of s]
      by (auto simp: cleanup_inv_def)
  next
    case False
    then have r: "\<exists>e\<in>set (effects s). isResolve e"
      and u: "set (unlinks s) \<subseteq> set (before_return (effects s))"
      using assms(3) by (auto simp: cleanup_inv_def)
    have "before_return (effects s') = before_return (effects s)"
      using e r by (simp add: before_return_append)
    then show ?thesis
      using e t False r u assms(2) by (auto simp: cleanup_inv_def)
  qed
next
  case (Finished i)
  then have i: "i < length (cleaning s)"
    and e: "effects s' = effects s @ [Resolve (cleaning s ! i)]"
    and t: "settled s' \<noteq> None"
    using assms(1) by (auto simp: shaped_def split: option.splits)
  from i have "cleaning s \<noteq> []" by auto
  then have u: "set (unlinks s) \<subseteq> set (before_return (effects s))"
    using assms(3) by (simp add: cleanup_inv_def)
  have "before_return (effects s') = before_return (effects s)"
    using e by (simp add: before_return_snoc_Resolve)
  then show ?thesis
    using e t u assms(2) by (auto simp: cleanup_inv_def)
qed

lemma fire_cleanup_inv: "enabled e s \<Longrightarrow> cleanup_inv s \<Longrightarrow> cleanup_inv (fire e s)"
  using fire_shape shaped_cleanup_inv unlinks_fire by blast

lemma exec_cleanup_inv:
  "exec evs s = Some s' \<Longrightarrow> cleanup_inv s \<Longrightarrow> cleanup_inv s' \<and> unlinks s' = unlinks s"
proof (induction evs arbitrary: s)
  case Nil
  then show ?case by simp
next
  case (Cons e evs)
  then have en: "enabled e s" and ex: "exec evs (fire e s) = Some s'"
    by (auto split: if_splits)
  from Cons.IH [OF ex fire_cleanup_inv [OF en Cons.prems(2)]] show ?case
    by (simp add: unlinks_fire)
qed

lemma try_setup_facts:
  "unlinks (fst (try_setup env)) =
     [Unlink (env_tempFilePath env), Unlink (env_heartbeatFilePath env),
      Unlink (env_optionsFilePath env)]"
  "cleaning (fst (try_setup env)) = []"
  "settled (fst (try_setup env)) = None"
  "\<not> (\<exists>e\<in>set (effects (fst (try_setup env))). isResolve e)"
  by (auto simp: try_setup_def init_def unlinks_def Let_def split: outcome.splits option.splits)

lemma getCmdWindowInput_cases:
  "(snd (try_setup env) = None \<and> getCmdWindowInput env = fst (try_setup env))
   \<or> (snd (try_setup env) \<noteq> None \<and>
       getCmdWindowInput env =
         (fst (try_setup env))\<lparr>effects := effects (fst (try_setup env)) @ unlinks (fst (try_setup env)),
                                cleaning := ['''']\<rparr>)"
  using try_setup_facts(2) [of env]
  by (cases "try_setup env")
     (auto simp: getCmdWindowInput_def cleanupResources_def unlinks_def Let_def
        split: option.splits)

lemma getCmdWindowInput_cleanup_inv:
  "cleanup_inv (getCmdWindowInput env)"
  "unlinks (getCmdWindowInput env) =
     [Unlink (env_tempFilePath env), Unlink (env_heartbeatFilePath env),
      Unlink (env_optionsFilePath env)]"
  using getCmdWindowInput_cases [of env] try_setup_facts [of env]
  by (auto simp: cleanup_inv_def before_return_all unlinks_def before_return_append)

lemma answers_Cons: "answers (e # es) = answers [e] @ answers es"
  by (induction "e # es" rule: answers.induct) auto

lemma shaped_values:
  assumes "shaped k s s'" and "\<forall>r. k = Started r \<longrightarrow> r \<in> V"
    and "set (cleaning s) \<subseteq> V" and "set_option (settled s) \<subseteq> V"
  shows "set (cleaning s') \<subseteq> V \<and> set_option (settled s') \<subseteq> V"
proof (cases k)
  case Same
  then show ?thesis using assms by (simp add: shaped_def)
next
  case (Started r)
  then show ?thesis using assms by (simp add: shaped_def)
next
  case (Finished i)
  then have i: "i < length (cleaning s)"
    and c: "cleaning s' = take i (cleaning s) @ drop (Suc i) (cleaning s)"
    and t: "settled s' = (case settled s of None \<Rightarrow> Some (cleaning s ! i) | Some v \<Rightarrow> Some v)"
    using assms(1) by (simp_all add: shaped_def)
  have "set (cleaning s') \<subseteq> set (cleaning s)"
    using c by (auto dest: in_set_takeD in_set_dropD)
  moreover have "cleaning s ! i \<in> V"
    using i assms(3) by (auto simp: subset_iff)
  ultimately show ?thesis
    using t assms(3,4) by (auto split: option.splits)
qed

lemma exec_values:
  "exec evs s = Some s' \<Longrightarrow> set (cleaning s) \<subseteq> V \<Longrightarrow> set_option (settled s) \<subseteq> V \<Longrightarrow>
     set ([] # answers evs) \<subseteq> V \<Longrightarrow>
     set (cleaning s') \<subseteq> V \<and> set_option (settled s') \<subseteq> V"
proof (induction evs arbitrary: s)
  case Nil
  then show ?case by simp
next
  case (Cons e evs)
  then have en: "enabled e s" and ex: "exec evs (fire e s) = Some s'"
    by (auto split: if_splits)
  from fire_shape [OF en] obtain k where k: "shaped k s (fire e s)"
    and r: "\<forall>r. k = Started r \<longrightarrow> r \<in> set ([] # answers [e])"
    by blast
  have sub: "set ([] # answers [e]) \<subseteq> V" "set ([] # answers evs) \<subseteq> V"
    using Cons.prems(4) answers_Cons [of e evs] by auto
  have "\<forall>r. k = Started r \<longrightarrow> r \<in> V"
    using r sub(1) by blast
  from shaped_values [OF k this Cons.prems(2,3)] Cons.IH [OF ex _ _ sub(2)]
  show ?case by blast
qed

lemma shaped_pending:
  assumes "shaped k s s'" and "settled s = None \<longrightarrow> timeoutHandle s \<or> cleaning s \<noteq> []"
  shows "settled s' = None \<longrightarrow> timeoutHandle s' \<or> cleaning s' \<noteq> []"
  using assms by (cases k) (auto simp: shaped_def split: option.splits)

lemma exec_pending:
  "exec evs s = Some s' \<Longrightarrow> (settled s = None \<longrightarrow> timeoutHandle s \<or> cleaning s \<noteq> []) \<Longrightarrow>
     settled s' = None \<longrightarrow> timeoutHandle s' \<or> cleaning s' \<noteq> []"
proof (induction evs arbitrary: s)
  case Nil
  then show ?case by simp
next
  case (Cons e evs)
  then have en: "enabled e s" and ex: "exec evs (fire e s) = Some s'"
    by (auto split: if_splits)
  from fire_shape [OF en] obtain k where "shaped k s (fire e s)"
    by blast
  from Cons.IH [OF ex shaped_pending [OF this Cons.prems(2)]] show ?case .
qed

lemma finish_resolves:
  assumes "settled s = None" and "timeoutHandle s \<or> cleaning s \<noteq> []"
  shows "\<exists>s'. exec (finish s) s = Some s' \<and> settled s' \<noteq> None"
proof (cases "cleaning s = []")
  case True
  then show ?thesis
    using assms by (simp add: finish_def ok3_def cleanupAndResolve_eq resolve_def)
next
  case False
  then show ?thesis
    using assms by (simp add: finish_def ok3_def resolve_def)
qed

lemma fire_watcher_off: "\<not> watcher s \<Longrightarrow> \<not> watcher (fire e s)"
  by (cases e) (auto simp: cleanupAndResolve_eq resolve_def Let_def
        split: outcome.splits fs_error.splits)

lemma fire_reads_zero: "enabled e s \<Longrightarrow> \<not> watcher s \<Longrightarrow> reads s = 0 \<Longrightarrow> reads (fire e s) = 0"
  by (cases e) (auto simp: cleanupAndResolve_eq resolve_def Let_def
        split: outcome.splits fs_error.splits)

lemma exec_no_answers:
  "exec evs s = Some s' \<Longrightarrow> \<not> watcher s \<Longrightarrow> reads s = 0 \<Longrightarrow> answers evs = []"
proof (induction evs arbitrary: s)
  case Nil
  then show ?case by simp
next
  case (Cons e evs)
  then have en: "enabled e s" and ex: "exec evs (fire e s) = Some s'"
    by (auto split: if_splits)
  have "answers [e] = []"
    using en Cons.prems(3) by (cases e) auto
  moreover have "answers evs = []"
    using Cons.IH [OF ex fire_watcher_off [OF Cons.prems(2)] fire_reads_zero [OF en Cons.prems(2,3)]] .
  ultimately show ?case
    using answers_Cons [of e evs] by simp
qed

lemma setup_failure_session:
  assumes "snd (try_setup env) \<noteq> None"
  shows "\<not> watcher (getCmdWindowInput env)" "reads (getCmdWindowInput env) = 0"
    "cleaning (getCmdWindowInput env) = ['''']"
proof -
  have "\<not> watcher (fst (try_setup env)) \<and> reads (fst (try_setup env)) = 0"
    using assms
    by (auto simp: try_setup_def init_def Let_def split: outcome.splits option.splits if_splits)
  then show "\<not> watcher (getCmdWindowInput env)" "reads (getCmdWindowInput env) = 0"
    "cleaning (getCmdWindowInput env) = ['''']"
    using assms getCmdWindowInput_cases [of env] by auto
qed

lemma getCmdWindowInput_pending:
  "settled (getCmdWindowInput env) = None"
  "timeoutHandle (getCmdWindowInput env) \<or> cleaning (getCmdWindowInput env) \<noteq> []"
  "set (cleaning (getCmdWindowInput env)) \<subseteq> {[]}"
proof -
  have "snd (try_setup env) = None \<longrightarrow> timeoutHandle (fst (try_setup env))"
    by (auto simp: try_setup_def init_def Let_def split: outcome.splits option.splits if_splits)
  then show "settled (getCmdWindowInput env) = None"
    "timeoutHandle (getCmdWindowInput env) \<or> cleaning (getCmdWindowInput env) \<noteq> []"
    "set (cleaning (getCmdWindowInput env)) \<subseteq> {[]}"
    using getCmdWindowInput_cases [of env] try_setup_facts [of env] by auto
qed

lemma resolving_starts_cleanup:
  assumes "resolving s e"
  shows "\<exists>r. shaped (Started r) s (fire e s)"
proof (cases "is_answer e")
  case True
  then obtain d where "e = ReadSettled (Fulfilled d)" and "d \<noteq> []"
    by (cases e rule: is_answer.cases) auto
  then have "shaped (Started (trim d)) s (fire e s)"
    by (simp add: shaped_def cleanupAndResolve_eq)
  then show ?thesis ..
next
  case False
  then have "is_failure s e"
    using assms by (simp add: resolving_def)
  then have "shaped (Started []) s (fire e s)"
    by (induction s e rule: is_failure.induct)
       (auto simp: shaped_def cleanupAndResolve_eq Let_def split: if_splits)
  then show ?thesis ..
qed

lemma settled_unlinked:
  assumes "cleanup_inv s" and "exec evs s = Some s'" and "settled s' \<noteq> None"
  shows "set (unlinks s) \<subseteq> set (before_return (effects s'))"
    and "filter isResolve (effects s') \<noteq> []"
proof -
  have "cleanup_inv s'" and "unlinks s' = unlinks s"
    using exec_cleanup_inv [OF assms(2,1)] by simp_all
  then show "set (unlinks s) \<subseteq> set (before_return (effects s'))"
    and "filter isResolve (effects s') \<noteq> []"
    using assms(3) by (auto simp: cleanup_inv_def filter_empty_conv)
qed

lemma resolving_settles:
  assumes "resolving s e" and "enabled e s" and "length outs = 3"
  shows "set (unlinks s) \<subseteq> set (drop (length (effects s)) (effects (fire e s)))"
    and "\<exists>s'. exec [e, CleanupSettled (length (cleaning s)) outs] s = Some s'
              \<and> settled s' \<noteq> None"
proof -
  from resolving_starts_cleanup [OF assms(1)] obtain r
    where "shaped (Started r) s (fire e s)" ..
  then have e: "effects (fire e s) = effects s @ disarm s @ unlinks s"
    and c: "cleaning (fire e s) = cleaning s @ [r]"
    by (simp_all add: shaped_def)
  show "set (unlinks s) \<subseteq> set (drop (length (effects s)) (effects (fire e s)))"
    using e by simp
  show "\<exists>s'. exec [e, CleanupSettled (length (cleaning s)) outs] s = Some s'
              \<and> settled s' \<noteq> None"
    using assms(2,3) c by (simp add: resolve_def split: option.splits)
qed

text \<open>
  C2: on any run of the callbacks after any setup (failed or not): whenever the
  promise has been settled, the effects before the first \<open>resolve\<close> contain the
  unlink of the answer file, of the heartbeat file and of the options file, and a
  \<open>resolve\<close> was indeed called; while it is not settled, the cleanup under way or
  the timeout settles it, again after the three unlinks; and every resolving event
  (a non-empty read of the answer file, a failed read, a stale or lost heartbeat, the
  timeout, an abnormal exit or an error of the child) itself starts the three unlinks
  and, once they end, settles the promise. The unlinks' own outcomes play no part.
\<close>

theorem channels_unlinked_before_return:
  assumes "exec evs (getCmdWindowInput env) = Some s"
  shows "(settled s \<noteq> None \<longrightarrow>
            Unlink (env_tempFilePath env) \<in> set (before_return (effects s))
          \<and> Unlink (env_heartbeatFilePath env) \<in> set (before_return (effects s))
          \<and> Unlink (env_optionsFilePath env) \<in> set (before_return (effects s))
          \<and> filter isResolve (effects s) \<noteq> [])
       \<and> (settled s = None \<longrightarrow>
            (\<exists>s'. exec (finish s) s = Some s' \<and> settled s' \<noteq> None
               \<and> Unlink (env_tempFilePath env) \<in> set (before_return (effects s'))
               \<and> Unlink (env_heartbeatFilePath env) \<in> set (before_return (effects s'))
               \<and> Unlink (env_optionsFilePath env) \<in> set (before_return (effects s'))))
       \<and> (resolving s e \<and> enabled e s \<and> length outs = 3 \<longrightarrow>
            Unlink (env_tempFilePath env) \<in> set (drop (length (effects s)) (effects (fire e s)))
          \<and> Unlink (env_heartbeatFilePath env)
              \<in> set (drop (length (effects s)) (effects (fire e s)))
          \<and> Unlink (env_optionsFilePath env)
              \<in> set (drop (length (effects s)) (effects (fire e s)))
          \<and> (\<exists>s'. exec [e, CleanupSettled (length (cleaning s)) outs] s = Some s'
                \<and> settled s' \<noteq> None
                \<and> Unlink (env_tempFilePath env) \<in> set (before_return (effects s'))
                \<and> Unlink (env_heartbeatFilePath env) \<in> set (before_return (effects s'))
                \<and> Unlink (env_optionsFilePath env) \<in> set (before_return (effects s'))))"
proof -
  have inv: "cleanup_inv s"
    and u: "unlinks s = [Unlink (env_tempFilePath env), Unlink (env_heartbeatFilePath env),
              Unlink (env_optionsFilePath env)]"
    using exec_cleanup_inv [OF assms] getCmdWindowInput_cleanup_inv [of env] by simp_all
  have a: "settled s \<noteq> None \<longrightarrow>
      set (unlinks s) \<subseteq> set (before_return (effects s)) \<and> filter isResolve (effects s) \<noteq> []"
    using settled_unlinked [OF inv, of "[]" s] by simp
  have b: "settled s = None \<longrightarrow>
      (\<exists>s'. exec (finish s) s = Some s' \<and> settled s' \<noteq> None
         \<and> set (unlinks s) \<subseteq> set (before_return (effects s')))"
  proof
    assume n: "settled s = None"
    have "timeoutHandle s \<or> cleaning s \<noteq> []"
      using n exec_pending [OF assms] getCmdWindowInput_pending(1,2) [of env] by blast
    from finish_resolves [OF n this] obtain s'
      where f: "exec (finish s) s = Some s'" "settled s' \<noteq> None" by blast
    then show "\<exists>s'. exec (finish s) s = Some s' \<and> settled s' \<noteq> None
         \<and> set (unlinks s) \<subseteq> set (before_return (effects s'))"
      using settled_unlinked(1) [OF inv f] by blast
  qed
  have c: "resolving s e \<and> enabled e s \<and> length outs = 3 \<longrightarrow>
      set (unlinks s) \<subseteq> set (drop (length (effects s)) (effects (fire e s)))
      \<and> (\<exists>s'. exec [e, CleanupSettled (length (cleaning s)) outs] s = Some s'
            \<and> settled s' \<noteq> None
            \<and> set (unlinks s) \<subseteq> set (before_return (effects s')))"
  proof
    assume h: "resolving s e \<and> enabled e s \<and> length outs = 3"
    then have r: "resolving s e" and en: "enabled e s" and l: "length outs = 3"
      by simp_all
    from resolving_settles(2) [OF r en l] obtain s'
      where f: "exec [e, CleanupSettled (length (cleaning s)) outs] s = Some s'"
        "settled s' \<noteq> None" by blast
    show "set (unlinks s) \<subseteq> set (drop (length (effects s)) (effects (fire e s)))
      \<and> (\<exists>s'. exec [e, CleanupSettled (length (cleaning s)) outs] s = Some s'
            \<and> settled s' \<noteq> None
            \<and> set (unlinks s) \<subseteq> set (before_return (effects s')))"
      using resolving_settles(1) [OF r en l] f settled_unlinked(1) [OF inv f] by blast
  qed
  from a b c show ?thesis
    unfolding u by simp
qed

theorem channels_unlinked_before_return_witness:
  "exec [CleanupSettled 0 missing3] (getCmdWindowInput no_terminal_env) =
     Some \<lparr>tempFilePath = ''/tmp/cmd-ui-response-0a1b2c3d4e5f6071.txt'',
           heartbeatFilePath = ''/tmp/cmd-ui-heartbeat-0a1b2c3d4e5f6071.txt'',
           optionsFilePath = ''/tmp/cmd-ui-options-0a1b2c3d4e5f6071.json'',
           ui = False, watcher = False, timeoutHandle = False, heartbeatInterval = False,
           heartbeatFileSeen = False, startTime = 0, reads = 0, stats = 0, cleaning = [],
           effects = [WriteFile ''/tmp/cmd-ui-options-0a1b2c3d4e5f6071.json'',
                      Unlink ''/tmp/cmd-ui-response-0a1b2c3d4e5f6071.txt'',
                      Unlink ''/tmp/cmd-ui-heartbeat-0a1b2c3d4e5f6071.txt'',
                      Unlink ''/tmp/cmd-ui-options-0a1b2c3d4e5f6071.json'',
                      Resolve ''''],
           settled = Some ''''\<rparr>
   \<and> Unlink ''/tmp/cmd-ui-options-0a1b2c3d4e5f6071.json''
       \<in> set (before_return
             [WriteFile ''/tmp/cmd-ui-options-0a1b2c3d4e5f6071.json'',
              Unlink ''/tmp/cmd-ui-response-0a1b2c3d4e5f6071.txt'',
              Unlink ''/tmp/cmd-ui-heartbeat-0a1b2c3d4e5f6071.txt'',
              Unlink ''/tmp/cmd-ui-options-0a1b2c3d4e5f6071.json'',
              Resolve ''''])
   \<and> exec [WatchEvent ''change'', ReadSettled (Fulfilled yes_answer), CleanupSettled 0 missing3]
        (getCmdWindowInput example_env) =
       Some ((getCmdWindowInput example_env)
         \<lparr>watcher := False, timeoutHandle := False, heartbeatInterval := False,
          effects := effects (getCmdWindowInput example_env) @
            [ClearInterval, CloseWatcher, ClearTimeout,
             Unlink ''/tmp/cmd-ui-response-0a1b2c3d4e5f6071.txt'',
             Unlink ''/tmp/cmd-ui-heartbeat-0a1b2c3d4e5f6071.txt'',
             Unlink ''/tmp/cmd-ui-options-0a1b2c3d4e5f6071.json'',
             Resolve ''yes''],
          settled := Some ''yes''\<rparr>)
   \<and> Unlink ''/tmp/cmd-ui-response-0a1b2c3d4e5f6071.txt''
       \<in> set (before_return (effects ((getCmdWindowInput example_env)
         \<lparr>watcher := False, timeoutHandle := False, heartbeatInterval := False,
          effects := effects (getCmdWindowInput example_env) @
            [ClearInterval, CloseWatcher, ClearTimeout,
             Unlink ''/tmp/cmd-ui-response-0a1b2c3d4e5f6071.txt'',
             Unlink ''/tmp/cmd-ui-heartbeat-0a1b2c3d4e5f6071.txt'',
             Unlink ''/tmp/cmd-ui-options-0a1b2c3d4e5f6071.json'',
             Resolve ''yes''],
          settled := Some ''yes''\<rparr>)))
   \<and> resolving (getCmdWindowInput example_env) TimeoutFired
   \<and> enabled TimeoutFired (getCmdWindowInput example_env)
   \<and> Unlink ''/tmp/cmd-ui-heartbeat-0a1b2c3d4e5f6071.txt''
       \<in> set (drop (length (effects (getCmdWindowInput example_env)))
               (effects (fire TimeoutFired (getCmdWindowInput example_env))))
   \<and> (\<exists>s'. exec [TimeoutFired, CleanupSettled 0 ok3] (getCmdWindowInput example_env) = Some s'
          \<and> settled s' \<noteq> None
          \<and> Unlink ''/tmp/cmd-ui-options-0a1b2c3d4e5f6071.json''
              \<in> set (before_return (effects s')))"
proof -
  let ?final = "\<lparr>tempFilePath = ''/tmp/cmd-ui-response-0a1b2c3d4e5f6071.txt'',
           heartbeatFilePath = ''/tmp/cmd-ui-heartbeat-0a1b2c3d4e5f6071.txt'',
           optionsFilePath = ''/tmp/cmd-ui-options-0a1b2c3d4e5f6071.json'',
           ui = False, watcher = False, timeoutHandle = False, heartbeatInterval = False,
           heartbeatFileSeen = False, startTime = 0, reads = 0, stats = 0, cleaning = [],
           effects = [WriteFile ''/tmp/cmd-ui-options-0a1b2c3d4e5f6071.json'',
                      Unlink ''/tmp/cmd-ui-response-0a1b2c3d4e5f6071.txt'',
                      Unlink ''/tmp/cmd-ui-heartbeat-0a1b2c3d4e5f6071.txt'',
                      Unlink ''/tmp/cmd-ui-options-0a1b2c3d4e5f6071.json'',
                      Resolve ''''],
           settled = Some ''''\<rparr>"
  let ?answered = "(getCmdWindowInput example_env)
         \<lparr>watcher := False, timeoutHandle := False, heartbeatInterval := False,
          effects := effects (getCmdWindowInput example_env) @
            [ClearInterval, CloseWatcher, ClearTimeout,
             Unlink ''/tmp/cmd-ui-response-0a1b2c3d4e5f6071.txt'',
             Unlink ''/tmp/cmd-ui-heartbeat-0a1b2c3d4e5f6071.txt'',
             Unlink ''/tmp/cmd-ui-options-0a1b2c3d4e5f6071.json'',
             Resolve ''yes''],
          settled := Some ''yes''\<rparr>"
  have e1: "exec [CleanupSettled 0 missing3] (getCmdWindowInput no_terminal_env) = Some ?final"
    by code_simp
  have p1: "env_optionsFilePath no_terminal_env = ''/tmp/cmd-ui-options-0a1b2c3d4e5f6071.json''"
    by (simp add: no_terminal_env_def example_env_def)
  have c1: "Unlink ''/tmp/cmd-ui-options-0a1b2c3d4e5f6071.json''
       \<in> set (before_return (effects ?final))"
    using channels_unlinked_before_return [OF e1] unfolding p1 by simp
  have e2: "exec [WatchEvent ''change'', ReadSettled (Fulfilled yes_answer),
              CleanupSettled 0 missing3] (getCmdWindowInput example_env) = Some ?answered"
    by code_simp
  have p2: "env_tempFilePath example_env = ''/tmp/cmd-ui-response-0a1b2c3d4e5f6071.txt''"
    "env_heartbeatFilePath example_env = ''/tmp/cmd-ui-heartbeat-0a1b2c3d4e5f6071.txt''"
    "env_optionsFilePath example_env = ''/tmp/cmd-ui-options-0a1b2c3d4e5f6071.json''"
    by (simp_all add: example_env_def)
  have s2: "settled ?answered \<noteq> None"
    by simp
  have c2: "Unlink ''/tmp/cmd-ui-response-0a1b2c3d4e5f6071.txt''
       \<in> set (before_return (effects ?answered))"
    using s2 channels_unlinked_before_return [OF e2] unfolding p2 by blast
  have e3: "exec [] (getCmdWindowInput example_env) = Some (getCmdWindowInput example_env)"
    by simp
  have r3: "resolving (getCmdWindowInput example_env) TimeoutFired"
    by (simp add: resolving_def)
  have n3: "enabled TimeoutFired (getCmdWindowInput example_env)"
    and l3: "length (cleaning (getCmdWindowInput example_env)) = 0"
    by code_simp+
  have o3: "length ok3 = 3"
    by (simp add: ok3_def)
  note t3 = channels_unlinked_before_return [OF e3, of TimeoutFired ok3, unfolded p2 l3]
  have c3: "Unlink ''/tmp/cmd-ui-heartbeat-0a1b2c3d4e5f6071.txt''
       \<in> set (drop (length (effects (getCmdWindowInput example_env)))
               (effects (fire TimeoutFired (getCmdWindowInput example_env))))"
    using r3 n3 o3 t3 by blast
  have d3: "\<exists>s'. exec [TimeoutFired, CleanupSettled 0 ok3] (getCmdWindowInput example_env) = Some s'
          \<and> settled s' \<noteq> None
          \<and> Unlink ''/tmp/cmd-ui-options-0a1b2c3d4e5f6071.json''
              \<in> set (before_return (effects s'))"
    using r3 n3 o3 t3 by blast
  have c1': "Unlink ''/tmp/cmd-ui-options-0a1b2c3d4e5f6071.json''
       \<in> set (before_return
             [WriteFile ''/tmp/cmd-ui-options-0a1b2c3d4e5f6071.json'',
              Unlink ''/tmp/cmd-ui-response-0a1b2c3d4e5f6071.txt'',
              Unlink ''/tmp/cmd-ui-heartbeat-0a1b2c3d4e5f6071.txt'',
              Unlink ''/tmp/cmd-ui-options-0a1b2c3d4e5f6071.json'',
              Resolve ''''])"
    using c1 by simp
  from e1 c1' e2 c2 r3 n3 c3 d3 show ?thesis
    by (intro conjI)
qed

lemma failure_resolves_empty:
  assumes "is_failure s e" and "enabled e s" and "cleaning s = []" and "settled s = None"
  shows "map_option settled (exec [e, CleanupSettled 0 ok3] s) = Some (Some '''')"
proof -
  have "cleaning (fire e s) = [''''] \<and> settled (fire e s) = None"
    using assms
    by (induction s e rule: is_failure.induct)
       (auto simp: cleanupAndResolve_eq Let_def split: if_splits)
  then show ?thesis
    using assms(2) by (simp add: ok3_def resolve_def)
qed

text \<open>
  C3: the setup's exceptions are values caught by the \<open>catch\<close>, so every run is a run
  of the model and nothing escapes. On every run: while the promise is unsettled the
  timeout is still armed or a cleanup is under way, and letting that finish settles
  the promise; a settled promise holds the empty string or the trimmed text of a
  non-empty read of the answer file; after a failed setup it can only hold the empty
  string; it is settled only after the three unlinks were started; and where no
  cleanup is under way and the promise is unsettled, each failure (read failure,
  heartbeat loss, timeout, abnormal exit, error of the child) settles it with the
  empty string once its cleanup ends.
\<close>

theorem never_raises_resolves_string:
  assumes "exec evs (getCmdWindowInput env) = Some s"
  shows "(settled s = None \<longrightarrow> timeoutHandle s \<or> cleaning s \<noteq> [])
       \<and> (settled s = None \<longrightarrow> (\<exists>s'. exec (finish s) s = Some s' \<and> settled s' \<noteq> None))
       \<and> (\<forall>r. settled s = Some r \<longrightarrow> r \<in> set ('''' # answers evs))
       \<and> (snd (try_setup env) \<noteq> None \<longrightarrow> settled s = None \<or> settled s = Some '''')
       \<and> (settled s \<noteq> None \<longrightarrow> set (unlinks s) \<subseteq> set (before_return (effects s)))
       \<and> (is_failure s e \<and> enabled e s \<and> cleaning s = [] \<and> settled s = None \<longrightarrow>
            map_option settled (exec [e, CleanupSettled 0 ok3] s) = Some (Some ''''))"
proof -
  have p: "settled s = None \<longrightarrow> timeoutHandle s \<or> cleaning s \<noteq> []"
    using exec_pending [OF assms] getCmdWindowInput_pending(1,2) [of env] by blast
  have f: "settled s = None \<longrightarrow> (\<exists>s'. exec (finish s) s = Some s' \<and> settled s' \<noteq> None)"
    using p finish_resolves by blast
  have v: "set_option (settled s) \<subseteq> set ([] # answers evs)"
    using exec_values [OF assms, of "set ([] # answers evs)"] getCmdWindowInput_pending [of env]
    by auto
  have d: "snd (try_setup env) \<noteq> None \<longrightarrow> answers evs = []"
    using exec_no_answers [OF assms] setup_failure_session(1,2) [of env] by auto
  have c: "settled s \<noteq> None \<longrightarrow> set (unlinks s) \<subseteq> set (before_return (effects s))"
  proof -
    have "cleanup_inv s"
      using exec_cleanup_inv [OF assms] getCmdWindowInput_cleanup_inv(1) [of env] by simp
    then show ?thesis
      by (simp add: cleanup_inv_def)
  qed
  from v d have "snd (try_setup env) \<noteq> None \<longrightarrow> settled s = None \<or> settled s = Some ''''"
    by (cases "settled s") auto
  moreover have "is_failure s e \<and> enabled e s \<and> cleaning s = [] \<and> settled s = None \<longrightarrow>
      map_option settled (exec [e, CleanupSettled 0 ok3] s) = Some (Some '''')"
    using failure_resolves_empty by blast
  ultimately show ?thesis
    using p f v c by auto
qed

theorem never_raises_resolves_string_witness:
  "exec [] (getCmdWindowInput spawn_fails_env) = Some (getCmdWindowInput spawn_fails_env)
   \<and> snd (try_setup spawn_fails_env) = Some SpawnError
   \<and> settled (getCmdWindowInput spawn_fails_env) = None
   \<and> cleaning (getCmdWindowInput spawn_fails_env) = ['''']
   \<and> (\<exists>s'. exec [CleanupSettled 0 ok3] (getCmdWindowInput spawn_fails_env) = Some s'
           \<and> settled s' \<noteq> None)
   \<and> exec [] (getCmdWindowInput example_env) = Some (getCmdWindowInput example_env)
   \<and> is_failure (getCmdWindowInput example_env) TimeoutFired
   \<and> enabled TimeoutFired (getCmdWindowInput example_env)
   \<and> cleaning (getCmdWindowInput example_env) = []
   \<and> settled (getCmdWindowInput example_env) = None
   \<and> map_option settled
        (exec [TimeoutFired, CleanupSettled 0 ok3] (getCmdWindowInput example_env)) =
      Some (Some '''')"
proof -
  have a: "exec [] (getCmdWindowInput spawn_fails_env) = Some (getCmdWindowInput spawn_fails_env)"
    by simp
  have b: "snd (try_setup spawn_fails_env) = Some SpawnError"
    by code_simp
  have c: "settled (getCmdWindowInput spawn_fails_env) = None"
    "cleaning (getCmdWindowInput spawn_fails_env) = ['''']"
    by code_simp+
  have d: "\<exists>s'. exec [CleanupSettled 0 ok3] (getCmdWindowInput spawn_fails_env) = Some s'
           \<and> settled s' \<noteq> None"
    using c never_raises_resolves_string [OF a] by (simp add: finish_def)
  have a': "exec [] (getCmdWindowInput example_env) = Some (getCmdWindowInput example_env)"
    by simp
  have e: "is_failure (getCmdWindowInput example_env) TimeoutFired"
    by simp
  have f: "enabled TimeoutFired (getCmdWindowInput example_env)"
    "cleaning (getCmdWindowInput example_env) = []"
    "settled (getCmdWindowInput example_env) = None"
    by code_simp+
  have g: "map_option settled
        (exec [TimeoutFired, CleanupSettled 0 ok3] (getCmdWindowInput example_env)) =
      Some (Some '''')"
    using e f never_raises_resolves_string [OF a', of TimeoutFired] by blast
  from a b c d a' e f g show ?thesis
    by (intro conjI)
qed


section \<open>Races between the triggers\<close>

text \<open>
  C1 at a concrete run: the watcher's listener has started its read of the answer
  file when the timeout fires; the timeout's \<open>cleanupAndResolve\<close> releases the three
  handles and starts the unlinks, and then the read ends with the text \<open>yes\<close>. Its
  continuation calls \<open>cleanupAndResolve\<close> again, since nothing there asks whether the
  session is already resolved: the three unlinks are started a second time and
  \<open>resolve\<close> is called twice. The promise keeps the first value.
\<close>

theorem cleanup_twice_when_read_in_flight:
  "exec race_trace (getCmdWindowInput example_env) =
     Some ((getCmdWindowInput example_env)
       \<lparr>watcher := False, timeoutHandle := False, heartbeatInterval := False,
        effects := effects (getCmdWindowInput example_env) @
          [ClearInterval, CloseWatcher, ClearTimeout,
           Unlink ''/tmp/cmd-ui-response-0a1b2c3d4e5f6071.txt'',
           Unlink ''/tmp/cmd-ui-heartbeat-0a1b2c3d4e5f6071.txt'',
           Unlink ''/tmp/cmd-ui-options-0a1b2c3d4e5f6071.json'',
           Unlink ''/tmp/cmd-ui-response-0a1b2c3d4e5f6071.txt'',
           Unlink ''/tmp/cmd-ui-heartbeat-0a1b2c3d4e5f6071.txt'',
           Unlink ''/tmp/cmd-ui-options-0a1b2c3d4e5f6071.json'',
           Resolve '''', Resolve ''yes''],
        settled := Some ''''\<rparr>)"
  by code_simp

section \<open>The answer watcher\<close>

text \<open>
  An answer file holding a space and a line feed is empty after trimming, and the
  session is resolved all the same (with the empty string).
\<close>

theorem whitespace_answer_counterexample:
  "trim blank_answer = []
   \<and> exec [WatchEvent ''change'', ReadSettled (Fulfilled blank_answer), CleanupSettled 0 ok3]
        (getCmdWindowInput example_env) =
      Some ((getCmdWindowInput example_env)
        \<lparr>watcher := False, timeoutHandle := False, heartbeatInterval := False,
         effects := effects (getCmdWindowInput example_env) @
           [ClearInterval, CloseWatcher, ClearTimeout,
            Unlink ''/tmp/cmd-ui-response-0a1b2c3d4e5f6071.txt'',
            Unlink ''/tmp/cmd-ui-heartbeat-0a1b2c3d4e5f6071.txt'',
            Unlink ''/tmp/cmd-ui-options-0a1b2c3d4e5f6071.json'',
            Resolve ''''],
         settled := Some ''''\<rparr>)"
  by code_simp

lemma trim_yes: "trim yes_answer = ''yes''"
  by code_simp

text \<open>
  C4, as the code has it: after a change event the read's continuation calls
  \<open>cleanupAndResolve\<close> with the trimmed text exactly when the text read is not empty
  (before trimming), and then the session resolves to the trimmed text; an empty
  text leaves the session as it was; a failed read resolves the session with the
  empty string. The text of two spaces, \<open>yes\<close>, a space and a line feed trims to
  \<open>yes\<close>.
\<close>

theorem watcher_resolves_nonempty_content:
  assumes "watcher s" and "cleaning s = []" and "settled s = None"
  shows "exec [WatchEvent ''change'', ReadSettled (Fulfilled data)] s =
           Some (if data \<noteq> [] then cleanupAndResolve (trim data) s else s)
       \<and> (data \<noteq> [] \<longrightarrow>
            map_option settled
              (exec [WatchEvent ''change'', ReadSettled (Fulfilled data), CleanupSettled 0 ok3] s) =
            Some (Some (trim data)))
       \<and> map_option settled
            (exec [WatchEvent ''change'', ReadSettled (Rejected readError), CleanupSettled 0 ok3] s) =
          Some (Some '''')
       \<and> trim yes_answer = ''yes''"
  using assms
  by (simp add: trim_yes cleanupAndResolve_eq resolve_def ok3_def)

theorem watcher_resolves_nonempty_content_witness:
  "watcher (getCmdWindowInput example_env)
   \<and> cleaning (getCmdWindowInput example_env) = []
   \<and> settled (getCmdWindowInput example_env) = None
   \<and> yes_answer \<noteq> []
   \<and> map_option settled
        (exec [WatchEvent ''change'', ReadSettled (Fulfilled yes_answer), CleanupSettled 0 ok3]
           (getCmdWindowInput example_env)) =
      Some (Some ''yes'')"
proof -
  have a: "watcher (getCmdWindowInput example_env)"
    and b: "cleaning (getCmdWindowInput example_env) = []"
    and c: "settled (getCmdWindowInput example_env) = None"
    by code_simp+
  have d: "yes_answer \<noteq> []"
    by (simp add: yes_answer_def)
  have "map_option settled
          (exec [WatchEvent ''change'', ReadSettled (Fulfilled yes_answer), CleanupSettled 0 ok3]
             (getCmdWindowInput example_env)) =
        Some (Some (trim yes_answer))"
    using d watcher_resolves_nonempty_content [OF a b c, of yes_answer] by blast
  then have f: "map_option settled
          (exec [WatchEvent ''change'', ReadSettled (Fulfilled yes_answer), CleanupSettled 0 ok3]
             (getCmdWindowInput example_env)) =
        Some (Some ''yes'')"
    by (simp only: trim_yes)
  from a b c d f show ?thesis
    by (intro conjI)
qed

lemma exec_append:
  "exec (xs @ ys) s = (case exec xs s of None \<Rightarrow> None | Some s' \<Rightarrow> exec ys s')"
  by (induction xs arbitrary: s) auto

lemma cleanupAndResolve_reads:
  "cleanupAndResolve r (s\<lparr>reads := n\<rparr>) = (cleanupAndResolve r s)\<lparr>reads := n\<rparr>"
  by (simp add: cleanupAndResolve_eq)

lemma fire_read_in_flight:
  assumes "enabled e s"
  shows "enabled e (s\<lparr>reads := Suc (reads s)\<rparr>)"
    and "fire e (s\<lparr>reads := Suc (reads s)\<rparr>) = (fire e s)\<lparr>reads := Suc (reads (fire e s))\<rparr>"
proof -
  show "enabled e (s\<lparr>reads := Suc (reads s)\<rparr>)"
    using assms by (cases e) auto
  show "fire e (s\<lparr>reads := Suc (reads s)\<rparr>) = (fire e s)\<lparr>reads := Suc (reads (fire e s))\<rparr>"
    using assms
    by (cases e)
       (auto simp: cleanupAndResolve_eq resolve_def Let_def
          split: outcome.splits fs_error.splits)
qed

lemma exec_read_in_flight:
  "exec mid s = Some s' \<Longrightarrow>
     exec mid (s\<lparr>reads := Suc (reads s)\<rparr>) = Some (s'\<lparr>reads := Suc (reads s')\<rparr>)"
proof (induction mid arbitrary: s)
  case Nil
  then show ?case by simp
next
  case (Cons e mid)
  then have en: "enabled e s" and ex: "exec mid (fire e s) = Some s'"
    by (auto split: if_splits)
  show ?case
    using Cons.IH [OF ex] fire_read_in_flight [OF en] by simp
qed

text \<open>
  C10: a change event whose read gives the empty string leaves the session exactly
  as it was: the listener only puts a read in flight, and the continuation of an empty
  read only takes it out again. Nothing is resolved or cleaned up and the watcher, the
  interval and the timeout stay armed. The same holds when other events run between
  the change event and the end of its read: the run ends in the state it would have
  reached without the two.
\<close>

theorem empty_read_changes_nothing:
  "(watcher s \<longrightarrow> exec [WatchEvent ''change'', ReadSettled (Fulfilled [])] s = Some s)
   \<and> (watcher s \<and> exec mid s = Some s' \<longrightarrow>
        exec (WatchEvent ''change'' # mid @ [ReadSettled (Fulfilled [])]) s = Some s')
   \<and> fire (ReadSettled (Fulfilled [])) s = s\<lparr>reads := reads s - 1\<rparr>
   \<and> fire (WatchEvent ''change'') s = s\<lparr>reads := Suc (reads s)\<rparr>"
proof -
  have "exec (WatchEvent ''change'' # mid @ [ReadSettled (Fulfilled [])]) s = Some s'"
    if w: "watcher s" and m: "exec mid s = Some s'"
  proof -
    have "exec (mid @ [ReadSettled (Fulfilled [])]) (s\<lparr>reads := Suc (reads s)\<rparr>) = Some s'"
      using exec_read_in_flight [OF m] by (simp add: exec_append)
    then show ?thesis
      using w by simp
  qed
  then show ?thesis
    by simp
qed

theorem empty_read_changes_nothing_witness:
  "watcher (getCmdWindowInput example_env)
   \<and> exec [WatchEvent ''change'', ReadSettled (Fulfilled [])] (getCmdWindowInput example_env) =
       Some (getCmdWindowInput example_env)
   \<and> exec [IntervalTick] (getCmdWindowInput example_env) =
       Some ((getCmdWindowInput example_env)\<lparr>stats := 1\<rparr>)
   \<and> exec [WatchEvent ''change'', IntervalTick, ReadSettled (Fulfilled [])]
        (getCmdWindowInput example_env) =
       Some ((getCmdWindowInput example_env)\<lparr>stats := 1\<rparr>)
   \<and> enabled (WatchEvent ''change'') (getCmdWindowInput example_env)
   \<and> enabled IntervalTick (getCmdWindowInput example_env)
   \<and> enabled TimeoutFired (getCmdWindowInput example_env)
   \<and> settled (getCmdWindowInput example_env) = None
   \<and> cleaning (getCmdWindowInput example_env) = []"
proof -
  have a: "watcher (getCmdWindowInput example_env)"
    and b: "heartbeatInterval (getCmdWindowInput example_env)"
    and c: "timeoutHandle (getCmdWindowInput example_env)"
    and d: "settled (getCmdWindowInput example_env) = None"
    and e: "cleaning (getCmdWindowInput example_env) = []"
    and f: "stats (getCmdWindowInput example_env) = 0"
    by code_simp+
  have m: "exec [IntervalTick] (getCmdWindowInput example_env) =
       Some ((getCmdWindowInput example_env)\<lparr>stats := 1\<rparr>)"
    using b f by simp
  have n: "exec [WatchEvent ''change'', ReadSettled (Fulfilled [])] (getCmdWindowInput example_env) =
       Some (getCmdWindowInput example_env)"
    using a empty_read_changes_nothing [of "getCmdWindowInput example_env"] by blast
  have "exec (WatchEvent ''change'' # [IntervalTick] @ [ReadSettled (Fulfilled [])])
        (getCmdWindowInput example_env) =
       Some ((getCmdWindowInput example_env)\<lparr>stats := 1\<rparr>)"
    using a m empty_read_changes_nothing [of "getCmdWindowInput example_env" "[IntervalTick]"
        "(getCmdWindowInput example_env)\<lparr>stats := 1\<rparr>"] by blast
  then have o: "exec [WatchEvent ''change'', IntervalTick, ReadSettled (Fulfilled [])]
        (getCmdWindowInput example_env) =
       Some ((getCmdWindowInput example_env)\<lparr>stats := 1\<rparr>)"
    by (simp only: append.simps)
  have p: "enabled (WatchEvent ''change'') (getCmdWindowInput example_env)"
    "enabled IntervalTick (getCmdWindowInput example_env)"
    "enabled TimeoutFired (getCmdWindowInput example_env)"
    using a b c by simp_all
  from a n m o p d e show ?thesis
    by (intro conjI)
qed

section \<open>Heartbeat grace period and timeout\<close>

lemma try_setup_armed:
  assumes "try_setup env = (s, None)"
  shows "cleaning s = []" "\<not> heartbeatFileSeen s" "settled s = None"
    "watcher s" "timeoutHandle s" "heartbeatInterval s" "startTime s = now env"
  using assms
  by (auto simp: try_setup_def init_def Let_def split: outcome.splits option.splits if_splits)

lemma poll_missing_before_grace:
  "\<not> heartbeatFileSeen s \<Longrightarrow> t - startTime s \<le> 7000 \<Longrightarrow>
     fire (StatSettled (Rejected (WithCode ''ENOENT'')) t) (fire IntervalTick s) = s"
  by simp

lemma poll_missing_after_grace:
  "7000 < t - startTime s \<Longrightarrow>
     fire (StatSettled (Rejected (WithCode ''ENOENT'')) t) (fire IntervalTick s) =
       cleanupAndResolve '''' s"
  by (simp add: cleanupAndResolve_eq disarm_def unlinks_def)


lemma run_timers_never:
  "\<forall>t. hb t = Rejected (WithCode ''ENOENT'') \<Longrightarrow> cleaning s = [] \<Longrightarrow> \<not> heartbeatFileSeen s \<Longrightarrow>
     tick \<le> startTime s + 8500 \<Longrightarrow> startTime s + 8500 \<le> deadline \<Longrightarrow>
     startTime s + 7000 < fst (run_timers hb tick deadline s)
     \<and> fst (run_timers hb tick deadline s) \<le> startTime s + 8500
     \<and> snd (run_timers hb tick deadline s) = cleanupAndResolve '''' s"
proof (induction hb tick deadline s rule: run_timers.induct)
  case (1 hb tick deadline s)
  have nt: "\<not> deadline < tick"
    using "1.prems" by simp
  have hb: "hb tick = Rejected (WithCode ''ENOENT'')"
    using "1.prems"(1) by simp
  show ?case
  proof (cases "7000 < tick - startTime s")
    case True
    then have "fire (StatSettled (hb tick) tick) (fire IntervalTick s) = cleanupAndResolve '''' s"
      using hb poll_missing_after_grace by simp
    then have "run_timers hb tick deadline s = (tick, cleanupAndResolve '''' s)"
      using nt run_timers.simps [of hb tick deadline s] by (simp add: cleanupAndResolve_eq)
    then show ?thesis
      using True "1.prems"(4) by simp
  next
    case False
    then have same: "fire (StatSettled (hb tick) tick) (fire IntervalTick s) = s"
      using hb "1.prems"(3) poll_missing_before_grace by simp
    then have step: "run_timers hb tick deadline s =
        run_timers hb (tick + setTimeout_delay 1500) deadline s"
      using nt "1.prems"(2) run_timers.simps [of hb tick deadline s] by simp
    have "tick + setTimeout_delay 1500 \<le> startTime s + 8500"
      using False by (simp add: setTimeout_delay_def)
    from "1.IH" [OF nt same [symmetric] _ "1.prems"(1,2,3) this "1.prems"(5)] step
    show ?thesis
      using "1.prems"(2) by simp
  qed
qed


lemma run_timers_never_polls:
  "\<forall>t. hb t = Rejected (WithCode ''ENOENT'') \<Longrightarrow> cleaning s = [] \<Longrightarrow> \<not> heartbeatFileSeen s \<Longrightarrow>
     heartbeatInterval s \<Longrightarrow> tick \<le> startTime s + 8500 \<Longrightarrow> startTime s + 8500 \<le> deadline \<Longrightarrow>
     \<exists>n. exec (polls hb tick n) s = Some (snd (run_timers hb tick deadline s))"
proof (induction hb tick deadline s rule: run_timers.induct)
  case (1 hb tick deadline s)
  have nt: "\<not> deadline < tick"
    using "1.prems" by simp
  have hb: "hb tick = Rejected (WithCode ''ENOENT'')"
    using "1.prems"(1) by simp
  have two: "exec [IntervalTick, StatSettled (hb tick) tick] s =
      Some (fire (StatSettled (hb tick) tick) (fire IntervalTick s))"
    using "1.prems"(4) by simp
  show ?case
  proof (cases "7000 < tick - startTime s")
    case True
    then have "fire (StatSettled (hb tick) tick) (fire IntervalTick s) = cleanupAndResolve '''' s"
      using hb poll_missing_after_grace by simp
    moreover from this have "run_timers hb tick deadline s = (tick, cleanupAndResolve '''' s)"
      using nt run_timers.simps [of hb tick deadline s] by (simp add: cleanupAndResolve_eq)
    ultimately have "exec (polls hb tick (Suc 0)) s = Some (snd (run_timers hb tick deadline s))"
      using two by simp
    then show ?thesis ..
  next
    case False
    then have same: "fire (StatSettled (hb tick) tick) (fire IntervalTick s) = s"
      using hb "1.prems"(3) poll_missing_before_grace by simp
    then have step: "run_timers hb tick deadline s =
        run_timers hb (tick + setTimeout_delay 1500) deadline s"
      using nt "1.prems"(2) run_timers.simps [of hb tick deadline s] by simp
    have "tick + setTimeout_delay 1500 \<le> startTime s + 8500"
      using False by (simp add: setTimeout_delay_def)
    from "1.IH" [OF nt same [symmetric] _ "1.prems"(1,2,3,4) this "1.prems"(6)]
    obtain n where n: "exec (polls hb (tick + setTimeout_delay 1500) n) s =
        Some (snd (run_timers hb (tick + setTimeout_delay 1500) deadline s))"
      using "1.prems"(2) by auto
    have "exec (polls hb tick (Suc n)) s =
        exec (polls hb (tick + setTimeout_delay 1500) n)
          (fire (StatSettled (hb tick) tick) (fire IntervalTick s))"
      using "1.prems"(4) by simp
    then have "exec (polls hb tick (Suc n)) s = Some (snd (run_timers hb tick deadline s))"
      using n same step by simp
    then show ?thesis ..
  qed
qed

text \<open>
  Three sessions whose heartbeat file never exists. With \<open>timeoutSeconds = 2147479\<close>
  the timeout's delay is beyond the timers' range and the session resolves 501 ms
  after \<open>startTime\<close>. With an answer file initialised in 6501 ms the first poll
  past the grace period comes 8501 ms after \<open>startTime\<close>. And an exit of the child
  with code 1 resolves the session without any poll.
\<close>

theorem heartbeat_grace_counterexample:
  "startTime (getCmdWindowInput example_env) = 0
   \<and> fst (quiet_session never_created 0 2147479 (getCmdWindowInput example_env)) = 501
   \<and> settled (snd (quiet_session never_created 0 2147479 (getCmdWindowInput example_env))) =
       Some ''''
   \<and> fst (quiet_session never_created 6501 30 (getCmdWindowInput example_env)) = 8501
   \<and> map_option settled
        (exec [ProcExit (Some 1), CleanupSettled 0 ok3] (getCmdWindowInput example_env)) =
      Some (Some '''')"
  by code_simp

text \<open>
  C5, as the code has it: after a successful setup (interval and timeout armed), when
  the heartbeat file never exists (every \<open>stat\<close> fails with \<open>ENOENT\<close>), nothing else
  happens to the session, the answer file's initialisation took at most 6.5 s, and
  \<open>timeoutSeconds\<close> is from 4 to 2147478, the session is resolved by a poll later
  than 7000 ms and at most 7000 + 1500 ms after \<open>startTime\<close>, before the timeout
  is due, and it resolves to the empty string; that session is a run of polls of
  the armed interval followed by the end of the cleanup. A poll that finds the file
  missing, never seen, at most 7000 ms after \<open>startTime\<close> leaves the session
  unchanged.
\<close>

theorem heartbeat_never_created_grace:
  assumes "try_setup env = (s, None)"
    and "\<forall>t. hb t = Rejected (WithCode ''ENOENT'')"
    and "0 \<le> w" and "w \<le> 6500"
    and "4 \<le> timeoutSeconds" and "timeoutSeconds \<le> 2147478"
  shows "startTime s + 7000 < fst (quiet_session hb w timeoutSeconds s)
       \<and> fst (quiet_session hb w timeoutSeconds s) \<le> startTime s + 7000 + 1500
       \<and> fst (quiet_session hb w timeoutSeconds s) < armedAt s w + timeoutDelay timeoutSeconds
       \<and> settled (snd (quiet_session hb w timeoutSeconds s)) = Some ''''
       \<and> (\<not> heartbeatFileSeen u \<and> t - startTime u \<le> 7000 \<longrightarrow>
            fire (StatSettled (hb t) t) (fire IntervalTick u) = u)
       \<and> heartbeatInterval s \<and> timeoutHandle s
       \<and> (\<exists>n. exec (polls hb (armedAt s w + setTimeout_delay 1500) n @ [CleanupSettled 0 ok3]) s =
                Some (snd (quiet_session hb w timeoutSeconds s)))"
proof -
  let ?a = "armedAt s w"
  let ?r = "run_timers hb (?a + setTimeout_delay 1500) (?a + timeoutDelay timeoutSeconds) s"
  have d: "timeoutDelay timeoutSeconds = timeoutSeconds * 1000 + 5000"
    using assms(5,6) by (simp add: timeoutDelay_def setTimeout_delay_def)
  have a: "?a = startTime s + w + 500"
    by (simp add: armedAt_def setTimeout_delay_def)
  have early: "?a + setTimeout_delay 1500 \<le> startTime s + 8500"
    using a assms(4) by (simp add: setTimeout_delay_def)
  have late: "startTime s + 8500 < ?a + timeoutDelay timeoutSeconds"
    using a d assms(3,5) by simp
  then have late': "startTime s + 8500 \<le> ?a + timeoutDelay timeoutSeconds"
    by simp
  have r: "startTime s + 7000 < fst ?r" "fst ?r \<le> startTime s + 8500"
    "snd ?r = cleanupAndResolve '''' s"
    using run_timers_never [OF assms(2) try_setup_armed(1,2) [OF assms(1)] early late']
    by simp_all
  have q: "quiet_session hb w timeoutSeconds s = (fst ?r, fire (CleanupSettled 0 ok3) (snd ?r))"
    by (simp add: quiet_session_def ok3_def Let_def split: prod.splits)
  have st: "settled (fire (CleanupSettled 0 ok3) (cleanupAndResolve '''' s)) = Some ''''"
    using try_setup_armed(1,3) [OF assms(1)] by (simp add: cleanupAndResolve_eq resolve_def)
  have fr: "\<not> heartbeatFileSeen u \<and> t - startTime u \<le> 7000 \<longrightarrow>
      fire (StatSettled (hb t) t) (fire IntervalTick u) = u"
    using assms(2) poll_missing_before_grace [of u t] by simp
  from run_timers_never_polls
    [OF assms(2) try_setup_armed(1,2,6) [OF assms(1)] early late']
  obtain n where n: "exec (polls hb (?a + setTimeout_delay 1500) n) s = Some (snd ?r)" ..
  have en: "enabled (CleanupSettled 0 ok3) (snd ?r)"
    using r(3) by (simp add: cleanupAndResolve_eq ok3_def)
  have "exec (polls hb (?a + setTimeout_delay 1500) n @ [CleanupSettled 0 ok3]) s =
      Some (snd (quiet_session hb w timeoutSeconds s))"
    using n en q by (simp add: exec_append)
  then have run: "\<exists>n. exec (polls hb (?a + setTimeout_delay 1500) n @ [CleanupSettled 0 ok3]) s =
      Some (snd (quiet_session hb w timeoutSeconds s))" ..
  from r q late st fr run try_setup_armed(5,6) [OF assms(1)] show ?thesis
    by simp
qed

theorem heartbeat_never_created_grace_witness:
  "try_setup example_env = (getCmdWindowInput example_env, None)
   \<and> (\<forall>t. never_created t = Rejected (WithCode ''ENOENT''))
   \<and> startTime (getCmdWindowInput example_env) = 0
   \<and> 7000 < fst (quiet_session never_created 0 30 (getCmdWindowInput example_env))
   \<and> fst (quiet_session never_created 0 30 (getCmdWindowInput example_env)) \<le> 8500
   \<and> settled (snd (quiet_session never_created 0 30 (getCmdWindowInput example_env))) = Some ''''
   \<and> heartbeatInterval (getCmdWindowInput example_env)
   \<and> exec (polls never_created 2000 5 @ [CleanupSettled 0 ok3]) (getCmdWindowInput example_env) =
       Some (snd (quiet_session never_created 0 30 (getCmdWindowInput example_env)))"
proof -
  have a: "try_setup example_env = (getCmdWindowInput example_env, None)"
    by code_simp
  have b: "\<forall>t. never_created t = Rejected (WithCode ''ENOENT'')"
    by (simp add: never_created_def)
  have c: "startTime (getCmdWindowInput example_env) = 0"
    by code_simp
  note t = heartbeat_never_created_grace [OF a b, of 0 30]
  have "startTime (getCmdWindowInput example_env) + 7000
          < fst (quiet_session never_created 0 30 (getCmdWindowInput example_env))
        \<and> fst (quiet_session never_created 0 30 (getCmdWindowInput example_env))
          \<le> startTime (getCmdWindowInput example_env) + 7000 + 1500
        \<and> settled (snd (quiet_session never_created 0 30 (getCmdWindowInput example_env))) =
          Some ''''"
    using t by simp
  then have d: "7000 < fst (quiet_session never_created 0 30 (getCmdWindowInput example_env))
        \<and> fst (quiet_session never_created 0 30 (getCmdWindowInput example_env)) \<le> 8500
        \<and> settled (snd (quiet_session never_created 0 30 (getCmdWindowInput example_env))) =
          Some ''''"
    by (simp only: c) simp
  have e: "heartbeatInterval (getCmdWindowInput example_env)"
    using t by simp
  have f: "exec (polls never_created 2000 5 @ [CleanupSettled 0 ok3])
        (getCmdWindowInput example_env) =
       Some (snd (quiet_session never_created 0 30 (getCmdWindowInput example_env)))"
    by code_simp
  from a b c d e f show ?thesis
    by (intro conjI) simp_all
qed




end
